theory Spec2Isabelle
  imports Main "HOL-Library.Monad_Syntax"
begin

section \<open>Tokens and syntax trees\<close>

text \<open>
  The token kinds that \<^verbatim>\<open>src/pass/expr.c\<close> names. The enumeration itself lives in the
  lexer's header; only the kinds the pass mentions (and the six capability tokens that
  \<^verbatim>\<open>cap_for_receiver\<close> can answer) are listed.
\<close>

datatype (plugins only: code extraction) token_id =
    TK_NONE | TK_ID | TK_INT | TK_FLOAT | TK_STRING
  | TK_PACKAGE | TK_TYPE | TK_TRAIT | TK_CLASS | TK_ACTOR
  | TK_FVAR | TK_FLET | TK_PARAM | TK_PARAMS | TK_TYPES
  | TK_TYPEPARAMS | TK_TYPEPARAM | TK_TYPEARGS | TK_IDSEQ
  | TK_NEW | TK_BE | TK_FUN | TK_QUESTION
  | TK_NOMINAL | TK_TUPLETYPE | TK_UNIONTYPE | TK_ISECTTYPE | TK_STRUCTURAL
  | TK_ARROW | TK_ERROR
  | TK_ISO | TK_TRN | TK_REF | TK_VAL | TK_BOX | TK_TAG
  | TK_SEQ | TK_VAR | TK_LET | TK_CONTINUE | TK_BREAK | TK_RETURN
  | TK_MULTIPLY | TK_DIVIDE | TK_MOD | TK_PLUS | TK_MINUS | TK_LSHIFT | TK_RSHIFT
  | TK_LT | TK_LE | TK_GE | TK_GT | TK_EQ | TK_NE | TK_IS | TK_ISNT
  | TK_AND | TK_XOR | TK_OR | TK_NOT | TK_ASSIGN | TK_CONSUME
  | TK_DOT | TK_QUALIFY | TK_CALL | TK_IF | TK_WHILE | TK_REPEAT | TK_FOR | TK_TRY
  | TK_TUPLE | TK_ARRAY | TK_OBJECT | TK_REFERENCE | TK_THIS

text \<open>
  A node: its token (kind, source line and column, the interned string of an identifier,
  the value of an integer literal), its ordered children and its type slot. A C pointer
  that may be \<^verbatim>\<open>NULL\<close> is an \<open>ast option\<close>. The links of a node to its surroundings
  (parent, next sibling, enclosing declarations) are not part of the node value; they are
  the record \<open>links\<close> below.
\<close>

datatype ast = Ast (ast_id: token_id) (ast_line: nat) (ast_pos: nat) (ast_name: string)
  (ast_int: int) (ast_children: "ast list") (ast_type: "ast option")

datatype ast_result_t = AST_OK | AST_FATAL

text \<open>A diagnostic is the position of the node it is reported at and its message.\<close>

type_synonym diag = "nat \<times> nat \<times> string"

text \<open>
  What a component hands back: \<open>None\<close> when the C code stops on a failed \<^verbatim>\<open>assert\<close> or
  dereferences \<^verbatim>\<open>NULL\<close>; otherwise its boolean result, the visited node as the component
  leaves it, and the diagnostics it emitted, in order.
\<close>

type_synonym expr_result = "(bool \<times> ast \<times> diag list) option"

subsection \<open>The tree interface\<close>

text \<open>
  Modelled from the spec: the node primitives of section 6 (\<^verbatim>\<open>child\<close>, \<^verbatim>\<open>child_at\<close>,
  \<^verbatim>\<open>last_child\<close>, \<^verbatim>\<open>set_type\<close>, \<^verbatim>\<open>new_node\<close>, \<^verbatim>\<open>new_string\<close>, \<^verbatim>\<open>add\<close> (prepend),
  \<^verbatim>\<open>append\<close>, \<^verbatim>\<open>ast_error\<close>), whose C bodies are in the tree library. Trees are values
  here, so a node added under a parent is a copy and releasing a node
  (\<^verbatim>\<open>ast_free\<close>, \<^verbatim>\<open>ast_free_unattached\<close>) has no counterpart. A child handed to
  \<open>ast_add\<close> or \<open>ast_append\<close> is a node; where the C code could hand over \<^verbatim>\<open>NULL\<close> the
  caller below stops with \<open>None\<close>.
\<close>

definition ast_child :: "ast \<Rightarrow> ast option" where
  "ast_child ast = (case ast_children ast of [] \<Rightarrow> None | c # _ \<Rightarrow> Some c)"

definition ast_childidx :: "ast \<Rightarrow> nat \<Rightarrow> ast option" where
  "ast_childidx ast idx =
     (if idx < length (ast_children ast) then Some (ast_children ast ! idx) else None)"

definition ast_childlast :: "ast \<Rightarrow> ast option" where
  "ast_childlast ast =
     (if ast_children ast = [] then None else Some (last (ast_children ast)))"

definition ast_settype :: "ast \<Rightarrow> ast option \<Rightarrow> ast" where
  "ast_settype ast ty =
     Ast (ast_id ast) (ast_line ast) (ast_pos ast) (ast_name ast) (ast_int ast)
       (ast_children ast) ty"

definition ast_from :: "ast \<Rightarrow> token_id \<Rightarrow> ast" where
  "ast_from ast tk = Ast tk (ast_line ast) (ast_pos ast) [] 0 [] None"

definition ast_from_string :: "ast \<Rightarrow> string \<Rightarrow> ast" where
  "ast_from_string ast name = Ast TK_ID (ast_line ast) (ast_pos ast) name 0 [] None"

definition ast_add :: "ast \<Rightarrow> ast \<Rightarrow> ast" where
  "ast_add parent child =
     Ast (ast_id parent) (ast_line parent) (ast_pos parent) (ast_name parent)
       (ast_int parent) (child # ast_children parent) (ast_type parent)"

definition ast_append :: "ast \<Rightarrow> ast \<Rightarrow> ast" where
  "ast_append parent child =
     Ast (ast_id parent) (ast_line parent) (ast_pos parent) (ast_name parent)
       (ast_int parent) (ast_children parent @ [child]) (ast_type parent)"

definition ast_error :: "ast \<Rightarrow> string \<Rightarrow> diag" where
  "ast_error ast msg = (ast_line ast, ast_pos ast, msg)"

text \<open>
  The links of the visited node, which the C node stores as pointers: \<^verbatim>\<open>ast_parent(ast)\<close>,
  \<^verbatim>\<open>ast_sibling(ast)\<close> and the three enclosing-of-kind queries. (The sibling of a
  \<^emph>\<open>child\<close> is read off the parent's child list instead.)
\<close>

record links =
  ast_parent :: "ast option"
  ast_sibling :: "ast option"
  ast_enclosing_type :: "ast option"
  ast_enclosing_loop :: "ast option"
  ast_enclosing_method_body :: "ast option"

subsection \<open>The collaborators\<close>

text \<open>
  The subtype engine, the nominal-type constructors, the capability oracle and the scope
  lookup are other modules; the pass is verified for every choice of them. Each takes the
  node whose scope it works in as the C function does. A \<^verbatim>\<open>NULL\<close> type handed to the
  subtype engine is passed on as \<open>None\<close>.
\<close>

record env =
  is_subtype :: "ast \<Rightarrow> ast option \<Rightarrow> ast option \<Rightarrow> bool"
  is_eqtype :: "ast \<Rightarrow> ast option \<Rightarrow> ast option \<Rightarrow> bool"
  nominal_builtin :: "ast \<Rightarrow> string \<Rightarrow> ast option"
  nominal_type :: "ast \<Rightarrow> string option \<Rightarrow> string \<Rightarrow> ast option"
  cap_for_receiver :: "ast \<Rightarrow> token_id"
  cap_for_fun :: "ast \<Rightarrow> token_id"
  is_cap_sub_cap :: "token_id \<Rightarrow> token_id \<Rightarrow> bool"
  ast_get :: "ast \<Rightarrow> string \<Rightarrow> ast option"

section \<open>Type-algebra helpers\<close>

text \<open>\<^verbatim>\<open>def_before_use\<close>: the result and the two diagnostics of the failing case.\<close>

definition def_before_use :: "ast \<Rightarrow> ast \<Rightarrow> string \<Rightarrow> bool \<times> diag list" where
  "def_before_use def use name =
     (if ast_line def > ast_line use \<or>
         (ast_line def = ast_line use \<and> ast_pos def > ast_pos use)
      then (False,
        [ast_error use (''declaration of '' @ [CHR 0x27] @ name @ [CHR 0x27] @ '' appears after use''),
         ast_error def (''declaration of '' @ [CHR 0x27] @ name @ [CHR 0x27] @ '' appears here'')])
      else (True, []))"

text \<open>
  The value of an integer literal is handed to the \<^verbatim>\<open>int index\<close> parameter of
  \<^verbatim>\<open>tuple_index\<close>; the conversion keeps the low 32 bits, read as a signed number.
\<close>

definition c_int :: "int \<Rightarrow> int" where
  "c_int n = (n + 2 ^ 31) mod 2 ^ 32 - 2 ^ 31"

text \<open>
  \<^verbatim>\<open>tuple_index\<close>. The outer \<open>option\<close> is the failed \<^verbatim>\<open>assert\<close> (or a \<^verbatim>\<open>TUPLETYPE\<close> node
  without a second child, whose kind the C code would read through \<^verbatim>\<open>NULL\<close>); the inner
  one is the returned pointer. The index is the C \<^verbatim>\<open>int\<close>; the loop only decrements it
  while it exceeds 1.
\<close>

function tuple_index_loop :: "ast \<Rightarrow> int \<Rightarrow> ast option option" where
  "tuple_index_loop ast index =
     (if index > 1 then
        (case ast_childidx ast 1 of
           None \<Rightarrow> None
         | Some right \<Rightarrow>
             if ast_id right \<noteq> TK_TUPLETYPE then Some None
             else tuple_index_loop right (index - 1))
      else if index = 0 then Some (ast_child ast)
      else
        (case ast_childidx ast 1 of
           None \<Rightarrow> None
         | Some a \<Rightarrow> if ast_id a = TK_TUPLETYPE then Some (ast_child a) else Some (Some a)))"
  by pat_completeness auto
termination
  by (relation "measure (\<lambda>(a, i). nat i)") auto

definition tuple_index :: "ast \<Rightarrow> int \<Rightarrow> ast option option" where
  "tuple_index ast index =
     (if ast_id ast \<noteq> TK_TUPLETYPE then None else tuple_index_loop ast index)"

definition type_builtin :: "env \<Rightarrow> ast \<Rightarrow> string \<Rightarrow> ast option" where
  "type_builtin env ast name =
     (let ty = ast_type ast;
          builtin = nominal_builtin env ast name;
          ok = is_subtype env ast ty builtin
      in if \<not> ok then None else ty)"

definition type_bool :: "env \<Rightarrow> ast \<Rightarrow> ast option" where
  "type_bool env ast = type_builtin env ast ''Bool''"

definition type_int :: "env \<Rightarrow> ast \<Rightarrow> ast option" where
  "type_int env ast = type_builtin env ast ''Integer''"

definition type_int_or_bool :: "env \<Rightarrow> ast \<Rightarrow> ast option \<times> diag list" where
  "type_int_or_bool env ast =
     (let ty = type_bool env ast;
          ty = (if ty = None then type_int env ast else ty)
      in if ty = None then (None, [ast_error ast ''expected Bool or an integer type''])
         else (ty, []))"

definition type_arithmetic :: "env \<Rightarrow> ast \<Rightarrow> ast option" where
  "type_arithmetic env ast = type_builtin env ast ''Arithmetic''"

definition type_super :: "env \<Rightarrow> ast \<Rightarrow> ast option \<Rightarrow> ast option \<Rightarrow> ast option" where
  "type_super env scope l_type r_type =
     (if l_type = None \<or> r_type = None then None
      else if is_subtype env scope l_type r_type then r_type
      else if is_subtype env scope r_type l_type then l_type
      else None)"

text \<open>
  \<^verbatim>\<open>type_union\<close> always returns a node; \<open>None\<close> is the case where a \<^verbatim>\<open>NULL\<close> operand would
  be added under the fresh \<^verbatim>\<open>UNIONTYPE\<close>.
\<close>

definition type_union :: "env \<Rightarrow> ast \<Rightarrow> ast option \<Rightarrow> ast option \<Rightarrow> ast option" where
  "type_union env ast l_type r_type =
     (case type_super env ast l_type r_type of
        Some super \<Rightarrow> Some super
      | None \<Rightarrow>
          do {
            r \<leftarrow> r_type;
            l \<leftarrow> l_type;
            let ty = ast_from ast TK_UNIONTYPE;
            let ty = ast_add ty r;
            let ty = ast_add ty l;
            Some ty
          })"

text \<open>
  \<^verbatim>\<open>type_for_fun\<close>: the loop appends the declared type (child 1) of every parameter to the
  fresh \<^verbatim>\<open>TYPES\<close> node.
\<close>

fun type_for_fun_params :: "ast \<Rightarrow> ast list \<Rightarrow> ast option" where
  "type_for_fun_params types [] = Some types"
| "type_for_fun_params types (param # rest) =
     do {
       t \<leftarrow> ast_childidx param 1;
       type_for_fun_params (ast_append types t) rest
     }"

definition type_for_fun :: "ast \<Rightarrow> ast option" where
  "type_for_fun ast =
     (if \<not> (ast_id ast = TK_NEW \<or> ast_id ast = TK_BE \<or> ast_id ast = TK_FUN) then None
      else do {
        cap \<leftarrow> ast_child ast;
        idn \<leftarrow> ast_childidx ast 1;
        typeparams \<leftarrow> ast_childidx ast 2;
        params \<leftarrow> ast_childidx ast 3;
        result \<leftarrow> ast_childidx ast 4;
        throws \<leftarrow> ast_childidx ast 5;
        let f = ast_from ast (ast_id ast);
        let f = ast_add f (ast_from ast TK_NONE);
        let f = ast_add f throws;
        let f = ast_add f result;
        f \<leftarrow> (if ast_id params = TK_PARAMS then
                do {
                  types \<leftarrow> type_for_fun_params (ast_from ast TK_TYPES) (ast_children params);
                  Some (ast_add f types)
                }
              else Some (ast_add f params));
        let f = ast_add f typeparams;
        let f = ast_add f idn;
        let f = ast_add f cap;
        Some f
      })"

section \<open>The l-value classifier\<close>

text \<open>
  The loop over a tuple's children leaves at the first child that is not an l-value;
  \<open>list_all\<close> gives the same answer.
\<close>

fun is_lvalue :: "ast \<Rightarrow> bool" where
  "is_lvalue (Ast i l p n v cs ty) =
     (if i = TK_REFERENCE \<or> i = TK_DOT then True
      else if i = TK_TUPLE then list_all is_lvalue cs
      else False)"

section \<open>Declarations and primary expressions\<close>

definition expr_field :: "env \<Rightarrow> ast \<Rightarrow> expr_result" where
  "expr_field env ast =
     do {
       ty \<leftarrow> ast_childidx ast 1;
       init \<leftarrow> ast_childidx ast 2;
       if ast_id ty = TK_NONE \<and> ast_id init = TK_NONE then
         Some (False, ast, [ast_error ast ''field/param needs a type or an initialiser''])
       else if ast_id ty = TK_NONE then
         Some (True, ast_settype ast (ast_type init), [])
       else if ast_id init \<noteq> TK_NONE \<and> \<not> is_subtype env ast (ast_type init) (Some ty) then
         Some (False, ast,
           [ast_error init ''field/param initialiser is not a subtype of the field/param type''])
       else Some (True, ast_settype ast (Some ty), [])
     }"

definition expr_literal :: "env \<Rightarrow> ast \<Rightarrow> string \<Rightarrow> expr_result" where
  "expr_literal env ast name =
     (case nominal_builtin env ast name of
        None \<Rightarrow> Some (False, ast, [])
      | Some ty \<Rightarrow> Some (True, ast_settype ast (Some ty), []))"

text \<open>
  \<^verbatim>\<open>expr_this\<close>. The C code hangs the empty \<^verbatim>\<open>TYPEARGS\<close> node under the nominal and then
  fills it in place; here it is filled first and added afterwards, which gives the same
  tree.
\<close>

fun expr_this_typeargs :: "env \<Rightarrow> ast \<Rightarrow> ast \<Rightarrow> ast list \<Rightarrow> ast option" where
  "expr_this_typeargs env ast typeargs [] = Some typeargs"
| "expr_this_typeargs env ast typeargs (typeparam # rest) =
     do {
       typeparam_id \<leftarrow> ast_child typeparam;
       typearg \<leftarrow> nominal_type env ast None (ast_name typeparam_id);
       expr_this_typeargs env ast (ast_append typeargs typearg) rest
     }"

definition expr_this :: "env \<Rightarrow> links \<Rightarrow> ast \<Rightarrow> expr_result" where
  "expr_this env ctx ast =
     do {
       def \<leftarrow> ast_enclosing_type ctx;
       if ast_id def = TK_TYPE then None
       else do {
         idn \<leftarrow> ast_child def;
         typeparams \<leftarrow> ast_childidx def 1;
         let name = ast_name idn;
         let nominal = ast_from ast TK_NOMINAL;
         let nominal = ast_add nominal (ast_from ast TK_NONE);
         let nominal = ast_add nominal (ast_from ast (cap_for_receiver env ast));
         nominal \<leftarrow> (if ast_id typeparams = TK_TYPEPARAMS then
                       do {
                         typeargs \<leftarrow> expr_this_typeargs env ast (ast_from ast TK_TYPEARGS)
                                      (ast_children typeparams);
                         Some (ast_add nominal typeargs)
                       }
                     else Some (ast_add nominal (ast_from ast TK_NONE)));
         let nominal = ast_add nominal (ast_from_string ast name);
         let nominal = ast_add nominal (ast_from ast TK_NONE);
         Some (True, ast_settype ast (Some nominal), [])
       }
     }"

definition expr_reference :: "env \<Rightarrow> links \<Rightarrow> ast \<Rightarrow> expr_result" where
  "expr_reference env ctx ast =
     do {
       c \<leftarrow> ast_child ast;
       let name = ast_name c;
       case ast_get env ast name of
         None \<Rightarrow>
           Some (False, ast,
             [ast_error ast (''can'' @ [CHR 0x27] @ ''t find declaration of '' @ [CHR 0x27] @ name @ [CHR 0x27])])
       | Some def \<Rightarrow>
           if ast_id def = TK_PACKAGE then
             do {
               parent \<leftarrow> ast_parent ctx;
               if ast_id parent \<noteq> TK_DOT then
                 Some (False, ast,
                   [ast_error ast ''a package can only appear as a prefix to a type''])
               else Some (True, ast, [])
             }
           else if ast_id def = TK_TYPE \<or> ast_id def = TK_CLASS \<or> ast_id def = TK_ACTOR then
             do {
               idn \<leftarrow> ast_child def;
               let name = ast_name idn;
               let ty = nominal_type env ast None name;
               Some (True, ast_settype ast ty, [])
             }
           else if ast_id def = TK_FVAR \<or> ast_id def = TK_FLET \<or> ast_id def = TK_PARAM then
             (case def_before_use def ast name of
                (False, ds) \<Rightarrow> Some (False, ast, ds)
              | (True, ds) \<Rightarrow> Some (True, ast_settype ast (ast_type def), ds))
           else if ast_id def = TK_NEW \<or> ast_id def = TK_BE \<or> ast_id def = TK_FUN then
             do {
               f \<leftarrow> type_for_fun def;
               Some (True, ast_settype ast (Some f), [])
             }
           else if ast_id def = TK_IDSEQ then
             (case def_before_use def ast name of
                (False, ds) \<Rightarrow> Some (False, ast, ds)
              | (True, ds) \<Rightarrow>
                  Some (False, ast, ds @ [ast_error ast ''not implemented (reference local)'']))
           else None
     }"

definition expr_dot :: "env \<Rightarrow> ast \<Rightarrow> expr_result" where
  "expr_dot env ast =
     do {
       left \<leftarrow> ast_child ast;
       right \<leftarrow> ast_childidx ast 1;
       let ty = ast_type left;
       if ast_id right = TK_ID then
         (if ty = None then
            (case ast_get env left (ast_name left) of
               None \<Rightarrow> Some (False, ast, [])
             | Some package \<Rightarrow>
                 if ast_id package \<noteq> TK_PACKAGE then None
                 else
                   let package_name = ast_name left;
                       type_name = ast_name right
                   in (case ast_get env package type_name of
                         None \<Rightarrow>
                           Some (False, ast,
                             [ast_error right
                                (''can'' @ [CHR 0x27] @ ''t find type '' @ [CHR 0x27] @ type_name @
                                 [CHR 0x27] @ '' in package '' @ [CHR 0x27] @ package_name @ [CHR 0x27])])
                       | Some _ \<Rightarrow>
                           Some (True,
                             ast_settype ast (nominal_type env ast (Some package_name) type_name),
                             [])))
          else Some (False, ast, [ast_error ast ''not implemented (dot)'']))
       else if ast_id right = TK_INT then
         (case ty of
            None \<Rightarrow>
              Some (False, ast,
                [ast_error right ''member by position can only be used on a tuple''])
          | Some t \<Rightarrow>
              if ast_id t \<noteq> TK_TUPLETYPE then
                Some (False, ast,
                  [ast_error right ''member by position can only be used on a tuple''])
              else
                (case tuple_index t (c_int (ast_int right)) of
                   None \<Rightarrow> None
                 | Some None \<Rightarrow> Some (False, ast, [ast_error right ''tuple index is out of bounds''])
                 | Some (Some e) \<Rightarrow> Some (True, ast_settype ast (Some e), [])))
       else None
     }"

definition expr_qualify :: "ast \<Rightarrow> expr_result" where
  "expr_qualify ast = Some (False, ast, [ast_error ast ''not implemented (qualify)''])"

section \<open>Operators\<close>

definition expr_identity :: "env \<Rightarrow> ast \<Rightarrow> expr_result" where
  "expr_identity env ast =
     do {
       left \<leftarrow> ast_child ast;
       right \<leftarrow> ast_childidx ast 1;
       let l_type = ast_type left;
       let r_type = ast_type right;
       if type_super env ast l_type r_type = None then
         Some (False, ast, [ast_error ast ''left and right side must have related types''])
       else expr_literal env ast ''Bool''
     }"

definition expr_compare :: "env \<Rightarrow> ast \<Rightarrow> expr_result" where
  "expr_compare env ast =
     do {
       left \<leftarrow> ast_child ast;
       right \<leftarrow> ast_childidx ast 1;
       let l_type = type_arithmetic env left;
       let r_type = type_arithmetic env right;
       let ty = type_super env ast l_type r_type;
       if ty = None \<and> \<not> is_subtype env ast (ast_type right) (ast_type left) then
         Some (False, ast, [ast_error ast ''right side must be a subtype of left side''])
       else Some (True, ast_settype ast (nominal_builtin env ast ''Bool''), [])
     }"

definition expr_order :: "env \<Rightarrow> ast \<Rightarrow> expr_result" where
  "expr_order env ast =
     do {
       left \<leftarrow> ast_child ast;
       right \<leftarrow> ast_childidx ast 1;
       let l_type = type_arithmetic env left;
       let r_type = type_arithmetic env right;
       let ty = type_super env ast l_type r_type;
       if ty = None \<and> \<not> is_subtype env ast (ast_type right) (ast_type left) then
         Some (False, ast, [ast_error ast ''right side must be a subtype of left side''])
       else Some (True, ast_settype ast (nominal_builtin env ast ''Bool''), [])
     }"

definition expr_arithmetic :: "env \<Rightarrow> ast \<Rightarrow> expr_result" where
  "expr_arithmetic env ast =
     do {
       left \<leftarrow> ast_child ast;
       right \<leftarrow> ast_childidx ast 1;
       let l_type = type_arithmetic env left;
       let r_type = type_arithmetic env right;
       case type_super env ast l_type r_type of
         None \<Rightarrow>
           Some (False, ast,
             [ast_error ast ''left and right side must have related arithmetic types''])
       | Some ty \<Rightarrow> Some (True, ast_settype ast (Some ty), [])
     }"

definition expr_minus :: "env \<Rightarrow> ast \<Rightarrow> expr_result" where
  "expr_minus env ast =
     do {
       left \<leftarrow> ast_child ast;
       let l_type = type_arithmetic env left;
       case ast_childidx ast 1 of
         Some right \<Rightarrow>
           (let r_type = type_arithmetic env right
            in case type_super env ast l_type r_type of
                 None \<Rightarrow>
                   Some (False, ast,
                     [ast_error ast ''left and right side must have related arithmetic types''])
               | Some ty \<Rightarrow> Some (True, ast_settype ast (Some ty), []))
       | None \<Rightarrow>
           (case l_type of
              None \<Rightarrow> Some (False, ast, [ast_error ast ''must have an arithmetic type''])
            | Some ty \<Rightarrow> Some (True, ast_settype ast (Some ty), []))
     }"

definition expr_shift :: "env \<Rightarrow> ast \<Rightarrow> expr_result" where
  "expr_shift env ast =
     do {
       left \<leftarrow> ast_child ast;
       right \<leftarrow> ast_childidx ast 1;
       let l_type = type_int env left;
       let r_type = type_int env right;
       if l_type = None \<or> r_type = None then
         Some (False, ast, [ast_error ast ''left and right side must have integer types''])
       else Some (True, ast_settype ast l_type, [])
     }"

definition expr_logical :: "env \<Rightarrow> ast \<Rightarrow> expr_result" where
  "expr_logical env ast =
     do {
       left \<leftarrow> ast_child ast;
       right \<leftarrow> ast_childidx ast 1;
       let (l_type, l_ds) = type_int_or_bool env left;
       let (r_type, r_ds) = type_int_or_bool env right;
       case type_super env ast l_type r_type of
         None \<Rightarrow>
           Some (False, ast, l_ds @ r_ds @
             [ast_error ast ''left and right side must have related integer or boolean types''])
       | Some ty \<Rightarrow> Some (True, ast_settype ast (Some ty), l_ds @ r_ds)
     }"

definition expr_not :: "env \<Rightarrow> ast \<Rightarrow> expr_result" where
  "expr_not env ast =
     do {
       child \<leftarrow> ast_child ast;
       case type_int_or_bool env child of
         (None, ds) \<Rightarrow> Some (False, ast, ds)
       | (Some ty, ds) \<Rightarrow> Some (True, ast_settype ast (Some ty), ds)
     }"

section \<open>Composite expressions\<close>

text \<open>
  \<^verbatim>\<open>expr_tuple\<close>. \<open>expr_tuple_loop ast tuple cs\<close> is the rest of the C function from the
  point where \<^verbatim>\<open>child\<close> is the head of \<open>cs\<close> and \<^verbatim>\<open>tuple\<close> already holds its first
  element; it returns \<^verbatim>\<open>tuple\<close> completed. The C code appends the next spine node before
  filling it; the tree is the same.
\<close>

fun expr_tuple_loop :: "ast \<Rightarrow> ast \<Rightarrow> ast list \<Rightarrow> ast option" where
  "expr_tuple_loop ast tuple [] = None"
| "expr_tuple_loop ast tuple [child] =
     do {
       t \<leftarrow> ast_type child;
       Some (ast_append tuple t)
     }"
| "expr_tuple_loop ast tuple (child # rest) =
     do {
       t \<leftarrow> ast_type child;
       let next = ast_from ast TK_TUPLETYPE;
       next \<leftarrow> expr_tuple_loop ast (ast_append next t) rest;
       Some (ast_append tuple next)
     }"

definition expr_tuple :: "ast \<Rightarrow> expr_result" where
  "expr_tuple ast =
     (case ast_children ast of
        [] \<Rightarrow> None
      | [child] \<Rightarrow> Some (True, ast_settype ast (ast_type child), [])
      | child # rest \<Rightarrow>
          do {
            t \<leftarrow> ast_type child;
            let tuple = ast_from ast TK_TUPLETYPE;
            ty \<leftarrow> expr_tuple_loop ast (ast_append tuple t) rest;
            Some (True, ast_settype ast (Some ty), [])
          })"

definition expr_call :: "env \<Rightarrow> ast \<Rightarrow> expr_result" where
  "expr_call env ast =
     do {
       left \<leftarrow> ast_child ast;
       ty \<leftarrow> ast_type left;
       if ast_id ty = TK_NEW \<or> ast_id ty = TK_BE \<or> ast_id ty = TK_FUN then
         (let rcap = cap_for_receiver env ast;
              fcap = cap_for_fun env ty
          in if \<not> is_cap_sub_cap env rcap fcap then
               Some (False, ast,
                 [ast_error ast ''receiver capability is not a subtype of method capability''])
             else Some (True, ast_settype ast (ast_childidx ty 4), []))
       else if ast_id ty = TK_UNIONTYPE \<or> ast_id ty = TK_ISECTTYPE \<or> ast_id ty = TK_NOMINAL \<or>
               ast_id ty = TK_STRUCTURAL \<or> ast_id ty = TK_ARROW then
         Some (False, ast, [ast_error ast ''not implemented (apply sugar)''])
       else if ast_id ty = TK_TUPLETYPE then
         Some (False, ast, [ast_error ast (''can'' @ [CHR 0x27] @ ''t call a tuple type'')])
       else None
     }"

section \<open>Control flow\<close>

definition expr_if :: "env \<Rightarrow> ast \<Rightarrow> expr_result" where
  "expr_if env ast =
     do {
       cond \<leftarrow> ast_child ast;
       left \<leftarrow> ast_childidx ast 1;
       if type_bool env cond = None then
         Some (False, ast, [ast_error cond ''condition must be a Bool''])
       else do {
         let l_type = ast_type left;
         right \<leftarrow> ast_childidx ast 2;
         let r_type = (if ast_id right = TK_NONE then nominal_builtin env ast ''None''
                       else ast_type right);
         ty \<leftarrow> type_union env ast l_type r_type;
         Some (True, ast_settype ast (Some ty), [])
       }
     }"

definition expr_while :: "env \<Rightarrow> ast \<Rightarrow> expr_result" where
  "expr_while env ast =
     do {
       cond \<leftarrow> ast_child ast;
       if type_bool env cond = None then
         Some (False, ast, [ast_error cond ''condition must be a Bool''])
       else Some (True, ast_settype ast (nominal_builtin env ast ''None''), [])
     }"

definition expr_repeat :: "env \<Rightarrow> ast \<Rightarrow> expr_result" where
  "expr_repeat env ast =
     do {
       body \<leftarrow> ast_child ast;
       cond \<leftarrow> ast_childidx ast 1;
       if type_bool env cond = None then
         Some (False, ast, [ast_error cond ''condition must be a Bool''])
       else Some (True, ast_settype ast (nominal_builtin env ast ''None''), [])
     }"

definition expr_continue :: "env \<Rightarrow> links \<Rightarrow> ast \<Rightarrow> expr_result" where
  "expr_continue env ctx ast =
     (case ast_enclosing_loop ctx of
        None \<Rightarrow> Some (False, ast, [ast_error ast ''must be in a loop''])
      | Some loop \<Rightarrow>
          (case ast_sibling ctx of
             Some sib \<Rightarrow>
               Some (False, ast,
                 [ast_error ast ''must be the last expression in a sequence'',
                  ast_error sib ''is followed with this expression''])
           | None \<Rightarrow> Some (True, ast_settype ast (nominal_builtin env ast ''None''), [])))"

definition expr_return :: "env \<Rightarrow> links \<Rightarrow> ast \<Rightarrow> expr_result" where
  "expr_return env ctx ast =
     do {
       body \<leftarrow> ast_child ast;
       let ty = ast_type body;
       case ast_enclosing_method_body ctx of
         None \<Rightarrow>
           Some (False, ast,
             [ast_error ast ''return must occur in a function or a behaviour body''])
       | Some f \<Rightarrow>
           (let (ok, ds) =
              (case ast_sibling ctx of
                 Some sib \<Rightarrow>
                   (False,
                    [ast_error ast ''must be the last expression in a sequence'',
                     ast_error sib ''is followed with this expression''])
               | None \<Rightarrow> (True, []))
            in if ast_id f = TK_NEW then
                 Some (False, ast, ds @ [ast_error ast ''cannot return in a constructor''])
               else if ast_id f = TK_BE then
                 (let none = nominal_builtin env ast ''None''
                  in if \<not> is_subtype env ast ty none then
                       Some (False, ast, ds @
                         [ast_error body ''body of a return in a behaviour must have type None''])
                     else Some (ok, ast, ds))
               else if ast_id f = TK_FUN then
                 do {
                   result \<leftarrow> ast_childidx f 4;
                   let result = (if ast_id result = TK_NONE then nominal_builtin env ast ''None''
                                 else Some result);
                   if \<not> is_subtype env ast ty result then
                     Some (False, ast, ds @
                       [ast_error body
                          (''body of return doesn'' @ [CHR 0x27] @ ''t match the function return type'')])
                   else Some (ok, ast, ds)
                 }
               else None)
     }"

definition expr_assign :: "env \<Rightarrow> ast \<Rightarrow> expr_result" where
  "expr_assign env ast =
     do {
       left \<leftarrow> ast_child ast;
       right \<leftarrow> ast_childidx ast 1;
       let l_type = ast_type left;
       let r_type = ast_type right;
       if \<not> is_lvalue left then
         Some (False, ast,
           [ast_error ast ''left side must be something that can be assigned to''])
       else if \<not> is_subtype env ast r_type l_type then
         Some (False, ast, [ast_error ast ''right side must be a subtype of left side''])
       else Some (True, ast_settype ast l_type, [])
     }"

definition expr_consume :: "ast \<Rightarrow> expr_result" where
  "expr_consume ast = Some (False, ast, [ast_error ast ''not implemented (consume)''])"

definition expr_error :: "links \<Rightarrow> ast \<Rightarrow> expr_result" where
  "expr_error ctx ast =
     (case ast_sibling ctx of
        Some sib \<Rightarrow>
          Some (False, ast,
            [ast_error ast ''error must be the last expression in a sequence'',
             ast_error sib ''error is followed with this expression''])
      | None \<Rightarrow> Some (True, ast_settype ast (Some (ast_from ast TK_ERROR)), []))"

text \<open>
  \<^verbatim>\<open>expr_seq\<close>. The loop carries \<^verbatim>\<open>can_error\<close> and \<^verbatim>\<open>type\<close>; \<^verbatim>\<open>type\<close> has no value before
  the first child, which the \<^verbatim>\<open>assert\<close> guarantees to exist.
\<close>

fun expr_seq_loop :: "env \<Rightarrow> ast \<Rightarrow> ast \<Rightarrow> ast list \<Rightarrow> bool \<times> ast option \<Rightarrow> bool \<times> ast option" where
  "expr_seq_loop env ast error [] (can_error, ty) = (can_error, ty)"
| "expr_seq_loop env ast error (child # rest) (can_error, ty) =
     expr_seq_loop env ast error rest
       (can_error \<or> is_subtype env ast (Some error) (ast_type child), ast_type child)"

definition expr_seq :: "env \<Rightarrow> ast \<Rightarrow> expr_result" where
  "expr_seq env ast =
     do {
       child \<leftarrow> ast_child ast;
       let error = ast_from ast TK_ERROR;
       let (can_error, ty) = expr_seq_loop env ast error (ast_children ast) (False, None);
       if can_error then
         do {
           u \<leftarrow> type_union env ast ty (Some error);
           Some (True, ast_settype ast (Some u), [])
         }
       else Some (True, ast_settype ast ty, [])
     }"

section \<open>Method bodies\<close>

text \<open>
  \<^verbatim>\<open>expr_fun\<close>. Each check yields the new value of \<^verbatim>\<open>ret\<close> and its diagnostics. The two
  diagnostics about the result type are reported at \<^verbatim>\<open>type\<close> as reassigned by the union
  with the \<^verbatim>\<open>ERROR\<close> marker. When the function is partial and the declared result is a
  subtype of the marker, \<^verbatim>\<open>type_union\<close> hands back the marker node itself, and the two
  releases that end the C function release this one unattached node twice: the run gives
  no verdict (\<open>None\<close>).
\<close>

definition expr_fun_body_here :: "ast \<Rightarrow> ast \<Rightarrow> string \<Rightarrow> (bool \<times> diag list) option" where
  "expr_fun_body_here ty body msg =
     do {
       lst \<leftarrow> ast_childlast body;
       Some (False, [ast_error ty msg, ast_error lst ''function body expression is here''])
     }"

definition expr_fun :: "env \<Rightarrow> links \<Rightarrow> ast \<Rightarrow> expr_result" where
  "expr_fun env ctx ast =
     do {
       ty \<leftarrow> ast_childidx ast 4;
       can_error \<leftarrow> ast_childidx ast 5;
       body \<leftarrow> ast_childidx ast 6;
       if ast_id body = TK_NONE then Some (True, ast, [])
       else do {
         def \<leftarrow> ast_enclosing_type ctx;
         let is_trait = (ast_id def = TK_TRAIT);
         body_type \<leftarrow> ast_type body;
         if ast_id body_type = TK_ERROR then
           do {
             (r, ds) \<leftarrow> expr_fun_body_here ty body ''function body always results in an error'';
             Some (False, ast, ds)
           }
         else do {
           let error = ast_from ast TK_ERROR;
           let (ret1, ds1) =
             (if ast_id can_error = TK_QUESTION then
                (if \<not> is_trait \<and> \<not> is_subtype env ast (Some error) (Some body_type) then
                   (False, [ast_error can_error ''function body is not partial but the function is''])
                 else (True, []))
              else
                (if is_subtype env ast (Some error) (Some body_type) then
                   (False, [ast_error can_error ''function body is partial but the function is not''])
                 else (True, [])));
           if ast_id ty \<noteq> TK_NONE then
             do {
               let declared = ty;
               ty \<leftarrow> (if ast_id can_error = TK_QUESTION
                      then type_union env ast (Some ty) (Some error) else Some ty);
               (ret2, ds2) \<leftarrow>
                 (if \<not> is_subtype env ast (Some body_type) (Some ty) then
                    expr_fun_body_here ty body
                      (''function body isn'' @ [CHR 0x27] @ ''t a subtype of the result type'')
                  else Some (True, []));
               (ret3, ds3) \<leftarrow>
                 (if \<not> is_trait \<and> \<not> is_eqtype env ast (Some body_type) (Some ty) then
                    expr_fun_body_here ty body
                      ''function body is more specific than the result type''
                  else Some (True, []));
               if ast_id can_error = TK_QUESTION \<and>
                  is_subtype env ast (Some declared) (Some error)
               then None
               else Some (ret1 \<and> ret2 \<and> ret3, ast, ds1 @ ds2 @ ds3)
             }
           else Some (ret1, ast, ds1)
         }
       }
     }"

section \<open>The dispatcher\<close>

definition fatal_unless :: "expr_result \<Rightarrow> (ast_result_t \<times> ast \<times> diag list) option" where
  "fatal_unless r =
     (case r of
        None \<Rightarrow> None
      | Some (ok, a, ds) \<Rightarrow> Some (if ok then AST_OK else AST_FATAL, a, ds))"

text \<open>
  \<^verbatim>\<open>type_expr\<close>, the visit callback. Its \<^verbatim>\<open>verbose\<close> argument is not used by the C code and
  is left out. The result is the verdict, the node as the visit leaves it and the
  diagnostics emitted.
\<close>

definition type_expr :: "env \<Rightarrow> links \<Rightarrow> ast \<Rightarrow> (ast_result_t \<times> ast \<times> diag list) option" where
  "type_expr env ctx ast =
     (case ast_id ast of
        TK_FVAR \<Rightarrow> fatal_unless (expr_field env ast)
      | TK_FLET \<Rightarrow> fatal_unless (expr_field env ast)
      | TK_PARAM \<Rightarrow> fatal_unless (expr_field env ast)
      | TK_NEW \<Rightarrow> fatal_unless (expr_fun env ctx ast)
      | TK_BE \<Rightarrow> fatal_unless (expr_fun env ctx ast)
      | TK_FUN \<Rightarrow> fatal_unless (expr_fun env ctx ast)
      | TK_SEQ \<Rightarrow> fatal_unless (expr_seq env ast)
      | TK_VAR \<Rightarrow> Some (AST_FATAL, ast, [ast_error ast ''not implemented (local)''])
      | TK_LET \<Rightarrow> Some (AST_FATAL, ast, [ast_error ast ''not implemented (local)''])
      | TK_CONTINUE \<Rightarrow> fatal_unless (expr_continue env ctx ast)
      | TK_BREAK \<Rightarrow> fatal_unless (expr_continue env ctx ast)
      | TK_RETURN \<Rightarrow> fatal_unless (expr_return env ctx ast)
      | TK_MULTIPLY \<Rightarrow> fatal_unless (expr_arithmetic env ast)
      | TK_DIVIDE \<Rightarrow> fatal_unless (expr_arithmetic env ast)
      | TK_MOD \<Rightarrow> fatal_unless (expr_arithmetic env ast)
      | TK_PLUS \<Rightarrow> fatal_unless (expr_arithmetic env ast)
      | TK_MINUS \<Rightarrow> fatal_unless (expr_minus env ast)
      | TK_LSHIFT \<Rightarrow> fatal_unless (expr_shift env ast)
      | TK_RSHIFT \<Rightarrow> fatal_unless (expr_shift env ast)
      | TK_LT \<Rightarrow> fatal_unless (expr_order env ast)
      | TK_LE \<Rightarrow> fatal_unless (expr_order env ast)
      | TK_GE \<Rightarrow> fatal_unless (expr_order env ast)
      | TK_GT \<Rightarrow> fatal_unless (expr_order env ast)
      | TK_EQ \<Rightarrow> fatal_unless (expr_compare env ast)
      | TK_NE \<Rightarrow> fatal_unless (expr_compare env ast)
      | TK_IS \<Rightarrow> fatal_unless (expr_identity env ast)
      | TK_ISNT \<Rightarrow> fatal_unless (expr_identity env ast)
      | TK_AND \<Rightarrow> fatal_unless (expr_logical env ast)
      | TK_XOR \<Rightarrow> fatal_unless (expr_logical env ast)
      | TK_OR \<Rightarrow> fatal_unless (expr_logical env ast)
      | TK_NOT \<Rightarrow> fatal_unless (expr_not env ast)
      | TK_ASSIGN \<Rightarrow> fatal_unless (expr_assign env ast)
      | TK_CONSUME \<Rightarrow> fatal_unless (expr_consume ast)
      | TK_DOT \<Rightarrow> fatal_unless (expr_dot env ast)
      | TK_QUALIFY \<Rightarrow> fatal_unless (expr_qualify ast)
      | TK_CALL \<Rightarrow> fatal_unless (expr_call env ast)
      | TK_IF \<Rightarrow> fatal_unless (expr_if env ast)
      | TK_WHILE \<Rightarrow> fatal_unless (expr_while env ast)
      | TK_REPEAT \<Rightarrow> fatal_unless (expr_repeat env ast)
      | TK_FOR \<Rightarrow> Some (AST_FATAL, ast, [ast_error ast ''not implemented (for)''])
      | TK_TRY \<Rightarrow> Some (AST_FATAL, ast, [ast_error ast ''not implemented (try)''])
      | TK_TUPLE \<Rightarrow> fatal_unless (expr_tuple ast)
      | TK_ARRAY \<Rightarrow> Some (AST_FATAL, ast, [ast_error ast ''not implemented (array)''])
      | TK_OBJECT \<Rightarrow> Some (AST_FATAL, ast, [ast_error ast ''not implemented (object)''])
      | TK_REFERENCE \<Rightarrow> fatal_unless (expr_reference env ctx ast)
      | TK_THIS \<Rightarrow> fatal_unless (expr_this env ctx ast)
      | TK_INT \<Rightarrow> fatal_unless (expr_literal env ast ''IntLiteral'')
      | TK_FLOAT \<Rightarrow> fatal_unless (expr_literal env ast ''FloatLiteral'')
      | TK_STRING \<Rightarrow> fatal_unless (expr_literal env ast ''String'')
      | TK_ERROR \<Rightarrow> fatal_unless (expr_error ctx ast)
      | _ \<Rightarrow> Some (AST_OK, ast, []))"

section \<open>Sample collaborators for concrete runs\<close>

text \<open>
  A small stand-in for the collaborators, used only to run the pass on concrete trees:
  nominal types are leaves carrying their name, subtyping is equality up to source
  positions, membership in a union, and three builtin facts about literals; the only name
  in scope is the package \<open>pkg\<close>.
\<close>

fun strip_pos :: "ast \<Rightarrow> ast" where
  "strip_pos (Ast i l p n v cs ty) = Ast i 0 0 n v (map strip_pos cs) (map_option strip_pos ty)"

definition nominal_at :: "nat \<Rightarrow> nat \<Rightarrow> string \<Rightarrow> ast" where
  "nominal_at l p name = Ast TK_NOMINAL l p name 0 [] None"

definition sample_subtype :: "ast option \<Rightarrow> ast option \<Rightarrow> bool" where
  "sample_subtype sub super =
     (case (sub, super) of
        (Some a, Some b) \<Rightarrow>
          strip_pos a = strip_pos b \<or>
          (ast_id b = TK_UNIONTYPE \<and> strip_pos a \<in> set (map strip_pos (ast_children b))) \<or>
          (ast_id a = TK_NOMINAL \<and> ast_id b = TK_NOMINAL \<and>
           (ast_name a, ast_name b) \<in>
             set [(''IntLiteral'', ''Integer''), (''IntLiteral'', ''Arithmetic''),
                  (''FloatLiteral'', ''Arithmetic'')])
      | _ \<Rightarrow> False)"

definition sample_env :: env where
  "sample_env =
     \<lparr> is_subtype = (\<lambda>scope. sample_subtype),
       is_eqtype = (\<lambda>scope a b. sample_subtype a b \<and> sample_subtype b a),
       nominal_builtin = (\<lambda>scope name. Some (nominal_at (ast_line scope) (ast_pos scope) name)),
       nominal_type = (\<lambda>scope package name. Some (nominal_at (ast_line scope) (ast_pos scope) name)),
       cap_for_receiver = (\<lambda>scope. TK_REF),
       cap_for_fun = (\<lambda>f. case ast_child f of Some c \<Rightarrow> ast_id c | None \<Rightarrow> TK_NONE),
       is_cap_sub_cap = (\<lambda>a b. a = b \<or> b = TK_TAG),
       ast_get = (\<lambda>scope name.
         if name = ''pkg'' then Some (Ast TK_PACKAGE 0 0 ''pkg'' 0 [] None) else None) \<rparr>"

definition no_links :: links where
  "no_links = \<lparr> ast_parent = None, ast_sibling = None, ast_enclosing_type = None,
     ast_enclosing_loop = None, ast_enclosing_method_body = None \<rparr>"

section \<open>Tuple types as the specification describes them\<close>

text \<open>
  Following the specification's words: an n-tuple type is the right-cons spine
  \<^verbatim>\<open>(t1, (t2, (... tn)))\<close> of binary \<^verbatim>\<open>TUPLETYPE\<close> nodes, a single type standing for itself.
  \<open>tuple_spine at t ts\<close> builds the spine of \<open>t # ts\<close> at the position of \<open>at\<close>;
  \<open>tuple_wf\<close> recognises a spine of binary nodes and \<open>tuple_elems\<close> reads its element
  types from left to right.
\<close>

fun tuple_spine :: "ast \<Rightarrow> ast \<Rightarrow> ast list \<Rightarrow> ast" where
  "tuple_spine at t [] = t"
| "tuple_spine at t (u # us) =
     Ast TK_TUPLETYPE (ast_line at) (ast_pos at) [] 0 [t, tuple_spine at u us] None"

fun tuple_wf :: "ast \<Rightarrow> bool" where
  "tuple_wf (Ast i l p n v cs ty) =
     (i = TK_TUPLETYPE \<and>
      (case cs of
         [e, r] \<Rightarrow> ast_id r = TK_TUPLETYPE \<longrightarrow> tuple_wf r
       | _ \<Rightarrow> False))"

fun tuple_elems :: "ast \<Rightarrow> ast list" where
  "tuple_elems (Ast i l p n v cs ty) =
     (case cs of
        [e, r] \<Rightarrow> if ast_id r = TK_TUPLETYPE then e # tuple_elems r else [e, r]
      | _ \<Rightarrow> [])"

section \<open>Predicates for the outcome of a visit\<close>







section \<open>Where an attached type comes from\<close>

text \<open>
  All nodes of a tree, type slots included: the node itself, the nodes of its children and
  the nodes of its attached type.
\<close>

fun subnodes :: "ast \<Rightarrow> ast list" where
  "subnodes (Ast i l p n v cs ty) =
     Ast i l p n v cs ty # concat (map subnodes cs) @
       (case ty of None \<Rightarrow> [] | Some t \<Rightarrow> subnodes t)"

text \<open>
  How a node that is not an \<^verbatim>\<open>error\<close> expression can come to carry the bare \<^verbatim>\<open>ERROR\<close>
  marker \<open>t\<close>: \<^verbatim>\<open>expr_seq\<close> gets its own marker back from \<^verbatim>\<open>type_union\<close> because the last
  child's type is a subtype of it; or \<open>t\<close> was in the tree before the visit (a declared
  type, or a type attached below the node); or \<open>t\<close> is the type of the definition that a
  reference resolves to.
\<close>

definition marker_source :: "env \<Rightarrow> ast \<Rightarrow> ast \<Rightarrow> bool" where
  "marker_source env ast t =
     (ast_id ast = TK_ERROR \<or>
      (ast_id ast = TK_SEQ \<and> t = ast_from ast TK_ERROR \<and>
       (case ast_childlast ast of
          None \<Rightarrow> False
        | Some c \<Rightarrow> is_subtype env ast (ast_type c) (Some (ast_from ast TK_ERROR)))) \<or>
      t \<in> set (subnodes ast) \<or>
      (ast_id ast = TK_REFERENCE \<and>
       (case ast_child ast of
          None \<Rightarrow> False
        | Some c \<Rightarrow>
            (case ast_get env ast (ast_name c) of
               None \<Rightarrow> False
             | Some def \<Rightarrow> ast_type def = Some t))))"

section \<open>Collaborators that use the scope node as a location\<close>

text \<open>
  The collaborators receive the visited node as a pointer and use it as a place in the
  tree. With trees as values this has to be said: their answers do not depend on the type
  attached to the node they are given as scope.
\<close>

definition scope_blind :: "env \<Rightarrow> bool" where
  "scope_blind env =
     (\<forall>s t. is_subtype env (ast_settype s t) = is_subtype env s \<and>
            is_eqtype env (ast_settype s t) = is_eqtype env s \<and>
            nominal_builtin env (ast_settype s t) = nominal_builtin env s \<and>
            nominal_type env (ast_settype s t) = nominal_type env s \<and>
            cap_for_receiver env (ast_settype s t) = cap_for_receiver env s \<and>
            ast_get env (ast_settype s t) = ast_get env s)"

section \<open>A field whose initialiser mentions the field\<close>

text \<open>
  The field declaration \<^verbatim>\<open>var x: String = f(x)\<close> on line 1 of a class that also has the
  method \<^verbatim>\<open>fun ref f(y: String): String\<close> on line 3. \<open>field_x\<close> is the declaration with the
  callee node, the type of the call and the type of the field as they stand at a given
  moment of the pass; the argument list is a tuple of one element.
\<close>

definition ref_x :: ast where
  "ref_x = Ast TK_REFERENCE 1 19 [] 0 [Ast TK_ID 1 19 ''x'' 0 [] None] None"

definition ref_f :: ast where
  "ref_f = Ast TK_REFERENCE 1 17 [] 0 [Ast TK_ID 1 17 ''f'' 0 [] None] None"

definition args_x :: ast where
  "args_x = Ast TK_TUPLE 1 18 [] 0 [ref_x] None"

definition call_f :: "ast \<Rightarrow> ast option \<Rightarrow> ast" where
  "call_f callee call_ty = Ast TK_CALL 1 18 [] 0 [callee, args_x] call_ty"

definition field_x :: "ast \<Rightarrow> ast option \<Rightarrow> ast option \<Rightarrow> ast" where
  "field_x callee call_ty field_ty =
     Ast TK_FVAR 1 1 [] 0
       [Ast TK_ID 1 5 ''x'' 0 [] None, nominal_at 1 8 ''String'', call_f callee call_ty]
       field_ty"

definition fun_f :: ast where
  "fun_f =
     Ast TK_FUN 3 3 [] 0
       [Ast TK_REF 3 7 [] 0 [] None, Ast TK_ID 3 11 ''f'' 0 [] None,
        Ast TK_NONE 3 12 [] 0 [] None,
        Ast TK_PARAMS 3 12 [] 0
          [Ast TK_PARAM 3 13 [] 0
             [Ast TK_ID 3 13 ''y'' 0 [] None, nominal_at 3 16 ''String'',
              Ast TK_NONE 3 22 [] 0 [] None] None] None,
        nominal_at 3 25 ''String'', Ast TK_NONE 3 31 [] 0 [] None,
        Ast TK_SEQ 3 35 [] 0 [Ast TK_REFERENCE 3 35 [] 0 [Ast TK_ID 3 35 ''y'' 0 [] None] None]
          None] None"

text \<open>
  The type that \<^verbatim>\<open>type_for_fun\<close> builds for \<open>fun_f\<close>, and the reference to \<open>f\<close> once it
  carries that type.
\<close>

definition fun_f_type :: ast where
  "fun_f_type =
     Ast TK_FUN 3 3 [] 0
       [Ast TK_REF 3 7 [] 0 [] None, Ast TK_ID 3 11 ''f'' 0 [] None,
        Ast TK_NONE 3 12 [] 0 [] None,
        Ast TK_TYPES 3 3 [] 0 [nominal_at 3 16 ''String''] None,
        nominal_at 3 25 ''String'', Ast TK_NONE 3 31 [] 0 [] None,
        Ast TK_NONE 3 3 [] 0 [] None] None"

definition ref_f_typed :: ast where
  "ref_f_typed = Ast TK_REFERENCE 1 17 [] 0 [Ast TK_ID 1 17 ''f'' 0 [] None] (Some fun_f_type)"

text \<open>
  The collaborators of the sample, with the class's scope: the name \<open>x\<close> resolves to the
  field declaration as it stands in the tree at the moment of the lookup (the argument
  \<open>d\<close>), the name \<open>f\<close> to the method.
\<close>

definition field_env :: "ast \<Rightarrow> env" where
  "field_env d =
     sample_env\<lparr>ast_get := (\<lambda>scope name.
       if name = ''x'' then Some d else if name = ''f'' then Some fun_f else None)\<rparr>"

section \<open>Basic facts\<close>

lemmas sample_defs = sample_env_def sample_subtype_def nominal_at_def no_links_def

lemma ast_settype_sel [simp]:
  "ast_id (ast_settype a t) = ast_id a"
  "ast_line (ast_settype a t) = ast_line a"
  "ast_pos (ast_settype a t) = ast_pos a"
  "ast_name (ast_settype a t) = ast_name a"
  "ast_int (ast_settype a t) = ast_int a"
  "ast_children (ast_settype a t) = ast_children a"
  "ast_type (ast_settype a t) = t"
  by (simp_all add: ast_settype_def)

lemma ast_child_Cons [simp]: "ast_children a = c # cs \<Longrightarrow> ast_child a = Some c"
  by (simp add: ast_child_def)

lemma ast_childidx_0 [simp]: "ast_children a = c # cs \<Longrightarrow> ast_childidx a 0 = Some c"
  by (simp add: ast_childidx_def)

lemma ast_childidx_1 [simp]: "ast_children a = c # d # cs \<Longrightarrow> ast_childidx a (Suc 0) = Some d"
  by (simp add: ast_childidx_def)

lemma ast_childidx_2 [simp]: "ast_children a = c # d # e # cs \<Longrightarrow> ast_childidx a 2 = Some e"
  by (simp add: ast_childidx_def)

lemma is_lvalue_iff:
  "is_lvalue a \<longleftrightarrow> ast_id a = TK_REFERENCE \<or> ast_id a = TK_DOT \<or>
     (ast_id a = TK_TUPLE \<and> (\<forall>c \<in> set (ast_children a). is_lvalue c))"
  by (cases a) (auto simp: list_all_iff)

section \<open>Assignment\<close>

text \<open>
  Claim C10. An \<^verbatim>\<open>ASSIGN\<close> node with both children present: when the left side is not an
  l-value the visit fails with "left side must be something that can be assigned to";
  otherwise, when the right side's type is not a subtype of the left side's type, it fails
  with "right side must be a subtype of left side"; otherwise it attaches the left side's
  type. An l-value is a \<^verbatim>\<open>REFERENCE\<close>, a \<^verbatim>\<open>DOT\<close>, or a \<^verbatim>\<open>TUPLE\<close> all of whose elements are
  l-values (a childless \<^verbatim>\<open>TUPLE\<close> included).
\<close>

theorem expr_assign_spec:
  assumes "ast_id ast = TK_ASSIGN" and "ast_children ast = left # right # rest"
  shows "type_expr env ctx ast =
           (if \<not> is_lvalue left then
              Some (AST_FATAL, ast,
                [ast_error ast ''left side must be something that can be assigned to''])
            else if \<not> is_subtype env ast (ast_type right) (ast_type left) then
              Some (AST_FATAL, ast, [ast_error ast ''right side must be a subtype of left side''])
            else Some (AST_OK, ast_settype ast (ast_type left), []))
         \<and> (is_lvalue left \<longleftrightarrow>
              ast_id left = TK_REFERENCE \<or> ast_id left = TK_DOT \<or>
              (ast_id left = TK_TUPLE \<and> (\<forall>c \<in> set (ast_children left). is_lvalue c)))"
  using assms is_lvalue_iff[of left]
  by (simp add: type_expr_def expr_assign_def fatal_unless_def)

theorem expr_assign_spec_witness:
  "type_expr sample_env no_links
     (Ast TK_ASSIGN 1 3 [] 0
        [Ast TK_REFERENCE 1 1 [] 0 [Ast TK_ID 1 1 ''x'' 0 [] None] (Some (nominal_at 1 1 ''String'')),
         Ast TK_STRING 1 5 ''hi'' 0 [] (Some (nominal_at 1 5 ''String''))] None)
   = Some (AST_OK,
       Ast TK_ASSIGN 1 3 [] 0
        [Ast TK_REFERENCE 1 1 [] 0 [Ast TK_ID 1 1 ''x'' 0 [] None] (Some (nominal_at 1 1 ''String'')),
         Ast TK_STRING 1 5 ''hi'' 0 [] (Some (nominal_at 1 5 ''String''))]
        (Some (nominal_at 1 1 ''String'')), [])"
  using expr_assign_spec[where env = sample_env and ctx = no_links and rest = "[]"
      and left = "Ast TK_REFERENCE 1 1 [] 0 [Ast TK_ID 1 1 ''x'' 0 [] None] (Some (nominal_at 1 1 ''String''))"
      and right = "Ast TK_STRING 1 5 ''hi'' 0 [] (Some (nominal_at 1 5 ''String''))"
      and ast = "Ast TK_ASSIGN 1 3 [] 0
        [Ast TK_REFERENCE 1 1 [] 0 [Ast TK_ID 1 1 ''x'' 0 [] None] (Some (nominal_at 1 1 ''String'')),
         Ast TK_STRING 1 5 ''hi'' 0 [] (Some (nominal_at 1 5 ''String''))] None"]
  by (simp add: sample_defs ast_settype_def)


section \<open>Comparison and order\<close>

text \<open>
  Claim C7. For a comparison (\<^verbatim>\<open>==\<close>, \<^verbatim>\<open>!=\<close>) or order (\<^verbatim>\<open><\<close>, \<^verbatim>\<open><=\<close>, \<^verbatim>\<open>>=\<close>, \<^verbatim>\<open>>\<close>) node
  with both operands present: whenever the visit accepts, the attached type is the \<^verbatim>\<open>Bool\<close>
  nominal made for the node and nothing is reported; and when both operands fail the
  arithmetic-membership probe, the node is accepted exactly when the right operand's type
  is a subtype of the left operand's type, and is otherwise rejected with
  "right side must be a subtype of left side".
\<close>

theorem compare_order_spec:
  assumes "ast_id ast \<in> {TK_EQ, TK_NE, TK_LT, TK_LE, TK_GE, TK_GT}"
    and "ast_children ast = left # right # rest"
  shows "(\<forall>ast' ds. type_expr env ctx ast = Some (AST_OK, ast', ds) \<longrightarrow>
            ast' = ast_settype ast (nominal_builtin env ast ''Bool'') \<and> ds = [])
         \<and> (type_arithmetic env left = None \<and> type_arithmetic env right = None \<longrightarrow>
              type_expr env ctx ast =
                (if is_subtype env ast (ast_type right) (ast_type left) then
                   Some (AST_OK, ast_settype ast (nominal_builtin env ast ''Bool''), [])
                 else
                   Some (AST_FATAL, ast,
                     [ast_error ast ''right side must be a subtype of left side''])))"
  using assms
  by (auto simp: type_expr_def expr_compare_def expr_order_def fatal_unless_def type_super_def Let_def
      split: if_splits)


theorem compare_order_spec_witness:
  "type_expr sample_env no_links
     (Ast TK_LT 1 3 [] 0
        [Ast TK_STRING 1 1 ''a'' 0 [] (Some (nominal_at 1 1 ''String'')),
         Ast TK_STRING 1 5 ''b'' 0 [] (Some (nominal_at 1 5 ''String''))] None)
   = Some (AST_OK,
       Ast TK_LT 1 3 [] 0
        [Ast TK_STRING 1 1 ''a'' 0 [] (Some (nominal_at 1 1 ''String'')),
         Ast TK_STRING 1 5 ''b'' 0 [] (Some (nominal_at 1 5 ''String''))]
        (Some (nominal_at 1 3 ''Bool'')), [])"
  using compare_order_spec[where env = sample_env and ctx = no_links and rest = "[]"
      and left = "Ast TK_STRING 1 1 ''a'' 0 [] (Some (nominal_at 1 1 ''String''))"
      and right = "Ast TK_STRING 1 5 ''b'' 0 [] (Some (nominal_at 1 5 ''String''))"
      and ast = "Ast TK_LT 1 3 [] 0
        [Ast TK_STRING 1 1 ''a'' 0 [] (Some (nominal_at 1 1 ''String'')),
         Ast TK_STRING 1 5 ''b'' 0 [] (Some (nominal_at 1 5 ''String''))] None",
      THEN conjunct2]
  by (simp add: sample_defs ast_settype_def type_arithmetic_def type_builtin_def)


section \<open>Conditionals and unions\<close>

text \<open>
  Claim C8. For an \<^verbatim>\<open>IF\<close> node whose condition passes bool-membership and whose branches
  are typed, the attached type is \<^verbatim>\<open>type_union\<close> of the then-type and the else-type, the
  else-type being the \<^verbatim>\<open>None\<close> nominal when the else branch is the \<^verbatim>\<open>NONE\<close> node; and that
  union is the right type when the left is a subtype of it, else the left type when the
  right is a subtype of it, else a fresh \<^verbatim>\<open>UNIONTYPE\<close> node whose children are the left and
  the right type, in this order.
\<close>

theorem expr_if_spec:
  assumes "ast_id ast = TK_IF" and "ast_children ast = cond # left # right # rest"
    and "type_bool env cond \<noteq> None"
    and "ast_type left = Some l_type"
    and "(if ast_id right = TK_NONE then nominal_builtin env ast ''None'' else ast_type right)
           = Some r_type"
  shows "type_expr env ctx ast =
           Some (AST_OK, ast_settype ast (type_union env ast (Some l_type) (Some r_type)), [])
         \<and> type_union env ast (Some l_type) (Some r_type) =
             Some (if is_subtype env ast (Some l_type) (Some r_type) then r_type
                   else if is_subtype env ast (Some r_type) (Some l_type) then l_type
                   else Ast TK_UNIONTYPE (ast_line ast) (ast_pos ast) [] 0 [l_type, r_type] None)"
proof -
  have u: "type_union env ast (Some l_type) (Some r_type) =
             Some (if is_subtype env ast (Some l_type) (Some r_type) then r_type
                   else if is_subtype env ast (Some r_type) (Some l_type) then l_type
                   else Ast TK_UNIONTYPE (ast_line ast) (ast_pos ast) [] 0 [l_type, r_type] None)"
    by (simp add: type_union_def type_super_def ast_from_def ast_add_def)
  have "expr_if env ast =
          Some (True, ast_settype ast (type_union env ast (Some l_type) (Some r_type)), [])"
    using assms(2-5) by (simp add: expr_if_def u Let_def)
  then show ?thesis
    using assms(1) u by (simp add: type_expr_def fatal_unless_def)
qed

theorem expr_if_spec_witness:
  "type_expr sample_env no_links
     (Ast TK_IF 1 1 [] 0
        [Ast TK_REFERENCE 1 4 [] 0 [] (Some (nominal_at 1 4 ''Bool'')),
         Ast TK_INT 1 11 [] 1 [] (Some (nominal_at 1 11 ''IntLiteral'')),
         Ast TK_NONE 1 12 [] 0 [] None] None)
   = Some (AST_OK,
       Ast TK_IF 1 1 [] 0
        [Ast TK_REFERENCE 1 4 [] 0 [] (Some (nominal_at 1 4 ''Bool'')),
         Ast TK_INT 1 11 [] 1 [] (Some (nominal_at 1 11 ''IntLiteral'')),
         Ast TK_NONE 1 12 [] 0 [] None]
        (Some (Ast TK_UNIONTYPE 1 1 [] 0
           [nominal_at 1 11 ''IntLiteral'', nominal_at 1 1 ''None''] None)), [])"
  using expr_if_spec[where env = sample_env and ctx = no_links and rest = "[]"
      and cond = "Ast TK_REFERENCE 1 4 [] 0 [] (Some (nominal_at 1 4 ''Bool''))"
      and left = "Ast TK_INT 1 11 [] 1 [] (Some (nominal_at 1 11 ''IntLiteral''))"
      and right = "Ast TK_NONE 1 12 [] 0 [] None"
      and l_type = "nominal_at 1 11 ''IntLiteral''"
      and r_type = "nominal_at 1 1 ''None''"
      and ast = "Ast TK_IF 1 1 [] 0
        [Ast TK_REFERENCE 1 4 [] 0 [] (Some (nominal_at 1 4 ''Bool'')),
         Ast TK_INT 1 11 [] 1 [] (Some (nominal_at 1 11 ''IntLiteral'')),
         Ast TK_NONE 1 12 [] 0 [] None] None"]
  by (simp add: sample_defs ast_settype_def type_bool_def type_builtin_def)

section \<open>Tuples\<close>

declare tuple_index_loop.simps [simp del]

lemma expr_tuple_loop_spine:
  "map ast_type cs = map Some (u # us) \<Longrightarrow>
   expr_tuple_loop ast (ast_append (ast_from ast TK_TUPLETYPE) t) cs =
     Some (tuple_spine ast t (u # us))"
proof (induction cs arbitrary: t u us)
  case Nil
  then show ?case by simp
next
  case (Cons c cs)
  show ?case
  proof (cases us)
    case Nil
    with Cons.prems show ?thesis
      by (auto simp: ast_append_def ast_from_def)
  next
    case (Cons u' us')
    with Cons.prems obtain c' cs' where cs: "cs = c' # cs'" by (cases cs) auto
    from Cons.prems Cons have m: "map ast_type cs = map Some (u' # us')" and cu: "ast_type c = Some u"
      by auto
    from Cons.IH[OF m, of u] cu cs Cons show ?thesis
      by (simp add: ast_append_def ast_from_def)
  qed
qed

text \<open>
  Claim C5. A \<^verbatim>\<open>TUPLE\<close> node whose children are typed: with one child the attached type
  is that child's type; with more, it is the right-cons \<^verbatim>\<open>TUPLETYPE\<close> spine of the
  children's types in order, whose last tail is the last child's type itself.
\<close>

theorem expr_tuple_spec:
  assumes "ast_id ast = TK_TUPLE" and "ast_children ast = c # cs"
    and "ast_type c = Some t" and "map ast_type cs = map Some ts"
  shows "type_expr env ctx ast = Some (AST_OK, ast_settype ast (Some (tuple_spine ast t ts)), [])"
proof (cases ts)
  case Nil
  with assms show ?thesis
    by (simp add: type_expr_def expr_tuple_def fatal_unless_def)
next
  case (Cons u us)
  with assms(4) obtain c' cs' where cs: "cs = c' # cs'" by (cases cs) auto
  from expr_tuple_loop_spine[of cs u us ast t] assms(4) Cons
  have "expr_tuple_loop ast (ast_append (ast_from ast TK_TUPLETYPE) t) cs = Some (tuple_spine ast t ts)"
    by simp
  with assms cs show ?thesis
    by (simp add: type_expr_def expr_tuple_def fatal_unless_def)
qed

lemma tuple_index_loop_elems:
  "tuple_wf T \<Longrightarrow> 0 \<le> i \<Longrightarrow>
   tuple_index_loop T i =
     Some (if nat i < length (tuple_elems T) then Some (tuple_elems T ! nat i) else None)"
proof (induction T arbitrary: i rule: tuple_wf.induct)
  case (1 k l p n v cs ty)
  from "1.prems"(1) obtain e r where cs: "cs = [e, r]" and k: "k = TK_TUPLETYPE"
    by (auto split: list.splits)
  let ?T = "Ast k l p n v cs ty"
  have c1: "ast_childidx ?T 1 = Some r" and c0: "ast_child ?T = Some e"
    using cs by (simp_all add: ast_childidx_def ast_child_def)
  show ?case
  proof (cases "ast_id r = TK_TUPLETYPE")
    case False
    then have el: "tuple_elems ?T = [e, r]" using cs by simp
    consider "i = 0" | "i = 1" | "1 < i" using "1.prems"(2) by linarith
    then show ?thesis
    proof cases
      case 1 then show ?thesis using el c0 by (subst tuple_index_loop.simps) simp
    next
      case 2 then show ?thesis using el c1 False by (subst tuple_index_loop.simps) simp
    next
      case 3
      then have "\<not> nat i < 2" by linarith
      with 3 show ?thesis using el c1 False by (subst tuple_index_loop.simps) simp
    qed
  next
    case True
    then have el: "tuple_elems ?T = e # tuple_elems r" using cs by simp
    from True "1.prems"(1) cs have wf: "tuple_wf r" by simp
    obtain k' l' p' n' v' cs' ty' where r: "r = Ast k' l' p' n' v' cs' ty'" by (cases r)
    from wf r obtain e' r' where cs': "cs' = [e', r']" by (auto split: list.splits)
    have hdc: "ast_child r = Some e'" and ne: "tuple_elems r \<noteq> []" and hd2: "tuple_elems r ! 0 = e'"
      using r cs' by (simp_all add: ast_child_def)
    consider "i = 0" | "i = 1" | "1 < i" using "1.prems"(2) by linarith
    then show ?thesis
    proof cases
      case 1 then show ?thesis using el c0 by (subst tuple_index_loop.simps) simp
    next
      case 2 then show ?thesis using el c1 True hdc ne hd2
        by (subst tuple_index_loop.simps) (cases "tuple_elems r"; simp)
    next
      case 3
      then have i1: "0 \<le> i - 1" and n: "nat i = Suc (nat (i - 1))" by linarith+
      from "1.IH"[OF cs refl refl True wf i1]
      have "tuple_index_loop r (i - 1) =
              Some (if nat (i - 1) < length (tuple_elems r) then Some (tuple_elems r ! nat (i - 1)) else None)" .
      with 3 show ?thesis using el c1 True n
        by (subst tuple_index_loop.simps) simp
    qed
  qed
qed


theorem expr_tuple_spec_witness:
  "type_expr sample_env no_links
     (Ast TK_TUPLE 1 1 [] 0
        [Ast TK_INT 1 2 [] 1 [] (Some (nominal_at 1 2 ''IntLiteral'')),
         Ast TK_STRING 1 5 ''s'' 0 [] (Some (nominal_at 1 5 ''String'')),
         Ast TK_FLOAT 1 9 [] 0 [] (Some (nominal_at 1 9 ''FloatLiteral''))] None)
   = Some (AST_OK,
       Ast TK_TUPLE 1 1 [] 0
        [Ast TK_INT 1 2 [] 1 [] (Some (nominal_at 1 2 ''IntLiteral'')),
         Ast TK_STRING 1 5 ''s'' 0 [] (Some (nominal_at 1 5 ''String'')),
         Ast TK_FLOAT 1 9 [] 0 [] (Some (nominal_at 1 9 ''FloatLiteral''))]
        (Some (Ast TK_TUPLETYPE 1 1 [] 0
           [nominal_at 1 2 ''IntLiteral'',
            Ast TK_TUPLETYPE 1 1 [] 0
              [nominal_at 1 5 ''String'', nominal_at 1 9 ''FloatLiteral''] None] None)), [])"
  using expr_tuple_spec[where env = sample_env and ctx = no_links
      and c = "Ast TK_INT 1 2 [] 1 [] (Some (nominal_at 1 2 ''IntLiteral''))"
      and cs = "[Ast TK_STRING 1 5 ''s'' 0 [] (Some (nominal_at 1 5 ''String'')),
                 Ast TK_FLOAT 1 9 [] 0 [] (Some (nominal_at 1 9 ''FloatLiteral''))]"
      and t = "nominal_at 1 2 ''IntLiteral''"
      and ts = "[nominal_at 1 5 ''String'', nominal_at 1 9 ''FloatLiteral'']"
      and ast = "Ast TK_TUPLE 1 1 [] 0
        [Ast TK_INT 1 2 [] 1 [] (Some (nominal_at 1 2 ''IntLiteral'')),
         Ast TK_STRING 1 5 ''s'' 0 [] (Some (nominal_at 1 5 ''String'')),
         Ast TK_FLOAT 1 9 [] 0 [] (Some (nominal_at 1 9 ''FloatLiteral''))] None"]
  by (simp add: ast_settype_def)

text \<open>
  Claim C6. A \<^verbatim>\<open>DOT\<close> node whose right child is an integer \<open>i \<ge> 0\<close> (one that fits the C
  \<^verbatim>\<open>int\<close>) and whose left child's
  type is a well-formed tuple spine: the visit attaches the \<open>i\<close>-th element type when \<open>i\<close>
  is in range and otherwise fails with "tuple index is out of bounds"; \<^verbatim>\<open>tuple_index\<close>
  returns the \<open>i\<close>-th element in range and nothing beyond the end of the spine. A
  \<^verbatim>\<open>TUPLETYPE(a, b)\<close> whose \<open>b\<close> is not a tuple type has exactly the elements \<open>a, b\<close>, so
  index 0 gives \<open>a\<close>, index 1 gives \<open>b\<close> and index 2 fails.
\<close>

theorem tuple_index_spec:
  assumes "ast_id ast = TK_DOT" and "ast_children ast = left # right # rest"
    and "ast_id right = TK_INT" and "ast_type left = Some T" and "tuple_wf T"
    and "0 \<le> ast_int right" and "ast_int right < 2 ^ 31"
  shows "type_expr env ctx ast =
           (if nat (ast_int right) < length (tuple_elems T) then
              Some (AST_OK, ast_settype ast (Some (tuple_elems T ! nat (ast_int right))), [])
            else Some (AST_FATAL, ast, [ast_error right ''tuple index is out of bounds'']))
         \<and> tuple_index T (ast_int right) =
             Some (if nat (ast_int right) < length (tuple_elems T)
                   then Some (tuple_elems T ! nat (ast_int right)) else None)
         \<and> (\<forall>a b. ast_children T = [a, b] \<and> ast_id b \<noteq> TK_TUPLETYPE \<longrightarrow>
                tuple_elems T = [a, b])"
proof -
  from assms(6,7) have ci: "c_int (ast_int right) = ast_int right"
    by (simp add: c_int_def)
  from assms(5) have k: "ast_id T = TK_TUPLETYPE" by (cases T) simp
  have ti: "tuple_index T (ast_int right) =
             Some (if nat (ast_int right) < length (tuple_elems T)
                   then Some (tuple_elems T ! nat (ast_int right)) else None)"
    using tuple_index_loop_elems[OF assms(5,6)] k by (simp add: tuple_index_def)
  have two: "\<forall>a b. ast_children T = [a, b] \<and> ast_id b \<noteq> TK_TUPLETYPE \<longrightarrow> tuple_elems T = [a, b]"
    by (cases T) auto
  have "expr_dot env ast =
          (if nat (ast_int right) < length (tuple_elems T) then
             Some (True, ast_settype ast (Some (tuple_elems T ! nat (ast_int right))), [])
           else Some (False, ast, [ast_error right ''tuple index is out of bounds'']))"
    using assms(2,3,4) k ti ci by (simp add: expr_dot_def)
  with assms(1) ti two show ?thesis
    by (simp add: type_expr_def fatal_unless_def)
qed

theorem tuple_index_spec_witness:
  "type_expr sample_env no_links
     (Ast TK_DOT 1 2 [] 0
        [Ast TK_REFERENCE 1 1 [] 0 []
           (Some (Ast TK_TUPLETYPE 3 1 [] 0 [nominal_at 3 2 ''A'', nominal_at 3 5 ''B''] None)),
         Ast TK_INT 1 3 [] 2 [] (Some (nominal_at 1 3 ''IntLiteral''))] None)
   = Some (AST_FATAL,
       Ast TK_DOT 1 2 [] 0
        [Ast TK_REFERENCE 1 1 [] 0 []
           (Some (Ast TK_TUPLETYPE 3 1 [] 0 [nominal_at 3 2 ''A'', nominal_at 3 5 ''B''] None)),
         Ast TK_INT 1 3 [] 2 [] (Some (nominal_at 1 3 ''IntLiteral''))] None,
       [(1, 3, ''tuple index is out of bounds'')])
   \<and> tuple_index (Ast TK_TUPLETYPE 3 1 [] 0 [nominal_at 3 2 ''A'', nominal_at 3 5 ''B''] None) 2
       = Some None"
  using tuple_index_spec[where env = sample_env and ctx = no_links and rest = "[]"
      and left = "Ast TK_REFERENCE 1 1 [] 0 []
           (Some (Ast TK_TUPLETYPE 3 1 [] 0 [nominal_at 3 2 ''A'', nominal_at 3 5 ''B''] None))"
      and right = "Ast TK_INT 1 3 [] 2 [] (Some (nominal_at 1 3 ''IntLiteral''))"
      and T = "Ast TK_TUPLETYPE 3 1 [] 0 [nominal_at 3 2 ''A'', nominal_at 3 5 ''B''] None"
      and ast = "Ast TK_DOT 1 2 [] 0
        [Ast TK_REFERENCE 1 1 [] 0 []
           (Some (Ast TK_TUPLETYPE 3 1 [] 0 [nominal_at 3 2 ''A'', nominal_at 3 5 ''B''] None)),
         Ast TK_INT 1 3 [] 2 [] (Some (nominal_at 1 3 ''IntLiteral''))] None"]
  by (simp add: nominal_at_def ast_error_def)

section \<open>Sequences\<close>

lemma expr_seq_loop_eq:
  "expr_seq_loop env ast error cs (b, ty) =
     (b \<or> (\<exists>c \<in> set cs. is_subtype env ast (Some error) (ast_type c)),
      if cs = [] then ty else ast_type (last cs))"
  by (induction cs arbitrary: b ty) auto

text \<open>
  Claim C3, as the code has it. A non-empty \<^verbatim>\<open>SEQ\<close> node whose children are typed is always
  accepted. When the \<^verbatim>\<open>ERROR\<close> marker is a subtype of some child's type, the attached type
  is \<^verbatim>\<open>type_union\<close> of the last child's type and the marker: the marker itself when the
  last type is a subtype of it, else the last type when the marker is a subtype of the
  last type, and only otherwise a fresh \<^verbatim>\<open>UNIONTYPE\<close> of the last type and the marker. When
  no child may error, the attached type is the last child's type.
\<close>

theorem expr_seq_spec:
  assumes "ast_id ast = TK_SEQ" and "ast_children ast = cs" and "cs \<noteq> []"
    and "\<forall>c \<in> set cs. ast_type c \<noteq> None"
    and "ast_type (last cs) = Some last_type"
  shows "type_expr env ctx ast =
           Some (AST_OK,
             ast_settype ast (Some
               (if \<exists>c \<in> set cs. is_subtype env ast (Some (ast_from ast TK_ERROR)) (ast_type c) then
                  (if is_subtype env ast (Some last_type) (Some (ast_from ast TK_ERROR))
                     then ast_from ast TK_ERROR
                   else if is_subtype env ast (Some (ast_from ast TK_ERROR)) (Some last_type)
                     then last_type
                   else Ast TK_UNIONTYPE (ast_line ast) (ast_pos ast) [] 0
                          [last_type, ast_from ast TK_ERROR] None)
                else last_type)), [])"
proof -
  from assms(2,3) have c: "ast_child ast = Some (hd cs)"
    by (cases cs) (simp_all add: ast_child_def)
  have u: "type_union env ast (Some last_type) (Some (ast_from ast TK_ERROR)) =
             Some (if is_subtype env ast (Some last_type) (Some (ast_from ast TK_ERROR))
                     then ast_from ast TK_ERROR
                   else if is_subtype env ast (Some (ast_from ast TK_ERROR)) (Some last_type)
                     then last_type
                   else Ast TK_UNIONTYPE (ast_line ast) (ast_pos ast) [] 0
                          [last_type, ast_from ast TK_ERROR] None)"
    by (simp add: type_union_def type_super_def ast_add_def) (simp add: ast_from_def)
  show ?thesis
    using assms(1,2,3,5) c u
    by (simp add: type_expr_def fatal_unless_def expr_seq_def expr_seq_loop_eq)
qed

theorem expr_seq_spec_witness:
  "type_expr sample_env no_links
     (Ast TK_SEQ 1 1 [] 0
        [Ast TK_INT 1 1 [] 1 [] (Some (nominal_at 1 1 ''IntLiteral'')),
         Ast TK_STRING 2 1 ''s'' 0 [] (Some (nominal_at 2 1 ''String''))] None)
   = Some (AST_OK,
       Ast TK_SEQ 1 1 [] 0
        [Ast TK_INT 1 1 [] 1 [] (Some (nominal_at 1 1 ''IntLiteral'')),
         Ast TK_STRING 2 1 ''s'' 0 [] (Some (nominal_at 2 1 ''String''))]
        (Some (nominal_at 2 1 ''String'')), [])"
  using expr_seq_spec[where env = sample_env and ctx = no_links
      and cs = "[Ast TK_INT 1 1 [] 1 [] (Some (nominal_at 1 1 ''IntLiteral'')),
                 Ast TK_STRING 2 1 ''s'' 0 [] (Some (nominal_at 2 1 ''String''))]"
      and last_type = "nominal_at 2 1 ''String''"
      and ast = "Ast TK_SEQ 1 1 [] 0
        [Ast TK_INT 1 1 [] 1 [] (Some (nominal_at 1 1 ''IntLiteral'')),
         Ast TK_STRING 2 1 ''s'' 0 [] (Some (nominal_at 2 1 ''String''))] None"]
  by (simp add: sample_defs ast_settype_def ast_from_def)

text \<open>
  Claim C3 as stated fails. The only child of this sequence has the type
  \<^verbatim>\<open>UNIONTYPE(IntLiteral, ERROR)\<close>, of which the marker is a subtype; the sequence gets that
  type itself, not a \<^verbatim>\<open>UNIONTYPE\<close> whose left branch is the last child's type.
\<close>

theorem expr_seq_union_counterexample:
  "is_subtype sample_env
     (Ast TK_SEQ 1 1 [] 0
        [Ast TK_CALL 1 1 [] 0 []
           (Some (Ast TK_UNIONTYPE 1 1 [] 0
              [nominal_at 1 1 ''IntLiteral'', Ast TK_ERROR 1 1 [] 0 [] None] None))] None)
     (Some (Ast TK_ERROR 1 1 [] 0 [] None))
     (Some (Ast TK_UNIONTYPE 1 1 [] 0
        [nominal_at 1 1 ''IntLiteral'', Ast TK_ERROR 1 1 [] 0 [] None] None))
   \<and> type_expr sample_env no_links
     (Ast TK_SEQ 1 1 [] 0
        [Ast TK_CALL 1 1 [] 0 []
           (Some (Ast TK_UNIONTYPE 1 1 [] 0
              [nominal_at 1 1 ''IntLiteral'', Ast TK_ERROR 1 1 [] 0 [] None] None))] None)
   = Some (AST_OK,
       Ast TK_SEQ 1 1 [] 0
        [Ast TK_CALL 1 1 [] 0 []
           (Some (Ast TK_UNIONTYPE 1 1 [] 0
              [nominal_at 1 1 ''IntLiteral'', Ast TK_ERROR 1 1 [] 0 [] None] None))]
        (Some (Ast TK_UNIONTYPE 1 1 [] 0
           [nominal_at 1 1 ''IntLiteral'', Ast TK_ERROR 1 1 [] 0 [] None] None)), [])
   \<and> Ast TK_UNIONTYPE 1 1 [] 0 [nominal_at 1 1 ''IntLiteral'', Ast TK_ERROR 1 1 [] 0 [] None] None
       \<noteq> Ast TK_UNIONTYPE 1 1 [] 0
           [Ast TK_UNIONTYPE 1 1 [] 0
              [nominal_at 1 1 ''IntLiteral'', Ast TK_ERROR 1 1 [] 0 [] None] None,
            Ast TK_ERROR 1 1 [] 0 [] None] None"
  by (simp add: sample_defs type_expr_def fatal_unless_def expr_seq_def ast_child_def
      type_union_def type_super_def ast_from_def ast_settype_def Let_def)

section \<open>Method bodies\<close>

text \<open>
  Claim C2. A \<^verbatim>\<open>FUN\<close> node with a declared result \<open>R\<close>, no \<^verbatim>\<open>?\<close> marker, a body whose attached
  type is \<open>B\<close>, in an enclosing type that is not a trait, is accepted if and only if \<open>B\<close>
  equals \<open>R\<close> under \<^verbatim>\<open>is_eqtype\<close> and the \<^verbatim>\<open>ERROR\<close> marker is not a subtype of \<open>B\<close>; an
  accepted node is left as it was and nothing is reported. Two facts about the subtype
  engine are assumed at this node: types equal under \<^verbatim>\<open>is_eqtype\<close> are subtypes, and the
  marker is a subtype of a type that is itself the marker.
\<close>

theorem expr_fun_accepts_iff:
  assumes "ast_id ast = TK_FUN"
    and "ast_childidx ast 4 = Some R" and "ast_id R \<noteq> TK_NONE"
    and "ast_childidx ast 5 = Some can_error" and "ast_id can_error \<noteq> TK_QUESTION"
    and "ast_childidx ast 6 = Some body" and "ast_id body \<noteq> TK_NONE"
    and "ast_type body = Some B"
    and "ast_enclosing_type ctx = Some encl" and "ast_id encl \<noteq> TK_TRAIT"
    and "is_eqtype env ast (Some B) (Some R) \<longrightarrow> is_subtype env ast (Some B) (Some R)"
    and "ast_id B = TK_ERROR \<longrightarrow> is_subtype env ast (Some (ast_from ast TK_ERROR)) (Some B)"
  shows "((\<exists>ast' ds. type_expr env ctx ast = Some (AST_OK, ast', ds)) \<longleftrightarrow>
            is_eqtype env ast (Some B) (Some R) \<and>
            \<not> is_subtype env ast (Some (ast_from ast TK_ERROR)) (Some B))
         \<and> (is_eqtype env ast (Some B) (Some R) \<and>
            \<not> is_subtype env ast (Some (ast_from ast TK_ERROR)) (Some B) \<longrightarrow>
              type_expr env ctx ast = Some (AST_OK, ast, []))"
  using assms
  by (auto simp: type_expr_def fatal_unless_def expr_fun_def expr_fun_body_here_def Let_def
      split: if_splits option.splits Option.bind_splits)


theorem expr_fun_accepts_iff_witness:
  "type_expr sample_env
     (no_links\<lparr>ast_enclosing_type := Some (Ast TK_CLASS 1 1 [] 0 [Ast TK_ID 1 7 ''C'' 0 [] None] None)\<rparr>)
     (Ast TK_FUN 2 3 [] 0
        [Ast TK_BOX 2 3 [] 0 [] None, Ast TK_ID 2 7 ''f'' 0 [] None, Ast TK_NONE 2 8 [] 0 [] None,
         Ast TK_NONE 2 8 [] 0 [] None, nominal_at 2 12 ''String'', Ast TK_NONE 2 18 [] 0 [] None,
         Ast TK_SEQ 3 5 [] 0 [Ast TK_STRING 3 5 ''s'' 0 [] (Some (nominal_at 3 5 ''String''))]
           (Some (nominal_at 3 5 ''String''))] None)
   = Some (AST_OK,
      Ast TK_FUN 2 3 [] 0
        [Ast TK_BOX 2 3 [] 0 [] None, Ast TK_ID 2 7 ''f'' 0 [] None, Ast TK_NONE 2 8 [] 0 [] None,
         Ast TK_NONE 2 8 [] 0 [] None, nominal_at 2 12 ''String'', Ast TK_NONE 2 18 [] 0 [] None,
         Ast TK_SEQ 3 5 [] 0 [Ast TK_STRING 3 5 ''s'' 0 [] (Some (nominal_at 3 5 ''String''))]
           (Some (nominal_at 3 5 ''String''))] None, [])"
  using expr_fun_accepts_iff[where env = sample_env
      and ctx = "no_links\<lparr>ast_enclosing_type := Some (Ast TK_CLASS 1 1 [] 0 [Ast TK_ID 1 7 ''C'' 0 [] None] None)\<rparr>"
      and R = "nominal_at 2 12 ''String''" and B = "nominal_at 3 5 ''String''"
      and can_error = "Ast TK_NONE 2 18 [] 0 [] None"
      and body = "Ast TK_SEQ 3 5 [] 0 [Ast TK_STRING 3 5 ''s'' 0 [] (Some (nominal_at 3 5 ''String''))]
           (Some (nominal_at 3 5 ''String''))"
      and encl = "Ast TK_CLASS 1 1 [] 0 [Ast TK_ID 1 7 ''C'' 0 [] None] None"
      and ast = "Ast TK_FUN 2 3 [] 0
        [Ast TK_BOX 2 3 [] 0 [] None, Ast TK_ID 2 7 ''f'' 0 [] None, Ast TK_NONE 2 8 [] 0 [] None,
         Ast TK_NONE 2 8 [] 0 [] None, nominal_at 2 12 ''String'', Ast TK_NONE 2 18 [] 0 [] None,
         Ast TK_SEQ 3 5 [] 0 [Ast TK_STRING 3 5 ''s'' 0 [] (Some (nominal_at 3 5 ''String''))]
           (Some (nominal_at 3 5 ''String''))] None", THEN conjunct2]
  by (simp add: sample_defs ast_childidx_def ast_from_def)

section \<open>What a visit leaves behind\<close>

lemma type_super_Some: "type_super env s l r = Some t \<Longrightarrow> l = Some t \<or> r = Some t"
  by (auto simp: type_super_def split: if_splits)

lemma type_builtin_Some: "type_builtin env a n = Some t \<Longrightarrow> ast_type a = Some t"
  by (auto simp: type_builtin_def Let_def split: if_splits)

lemma type_int_or_bool_cases:
  "type_int_or_bool env a = (r, ds) \<Longrightarrow>
     (r = None \<and> ds \<noteq> []) \<or> (r = ast_type a \<and> r \<noteq> None \<and> ds = [])"
  by (auto simp: type_int_or_bool_def type_bool_def type_int_def Let_def
      dest: type_builtin_Some split: if_splits)

lemma def_before_use_cases:
  "def_before_use d u n = (ok, ds) \<Longrightarrow> (ok \<and> ds = []) \<or> (\<not> ok \<and> ds \<noteq> [])"
  by (auto simp: def_before_use_def split: if_splits)

lemma expr_reference_cases:
  assumes "expr_reference env ctx ast = Some (ok, a, ds)"
  obtains
    (miss) c where "ast_child ast = Some c" "ast_get env ast (ast_name c) = None"
      "\<not> ok" "a = ast" "ds \<noteq> []"
  | (package) c d where "ast_child ast = Some c" "ast_get env ast (ast_name c) = Some d"
      "ast_id d = TK_PACKAGE" "a = ast" "(ok \<and> ds = []) \<or> (\<not> ok \<and> ds \<noteq> [])"
  | (tydef) c d idn where "ast_child ast = Some c" "ast_get env ast (ast_name c) = Some d"
      "ast_id d = TK_TYPE \<or> ast_id d = TK_CLASS \<or> ast_id d = TK_ACTOR"
      "ast_child d = Some idn" "ok" "ds = []"
      "a = ast_settype ast (nominal_type env ast None (ast_name idn))"
  | (field) c d where "ast_child ast = Some c" "ast_get env ast (ast_name c) = Some d"
      "ast_id d = TK_FVAR \<or> ast_id d = TK_FLET \<or> ast_id d = TK_PARAM"
      "(ok \<and> ds = [] \<and> a = ast_settype ast (ast_type d)) \<or> (\<not> ok \<and> ds \<noteq> [] \<and> a = ast)"
  | (routine) c d f where "ast_child ast = Some c" "ast_get env ast (ast_name c) = Some d"
      "ast_id d = TK_NEW \<or> ast_id d = TK_BE \<or> ast_id d = TK_FUN"
      "type_for_fun d = Some f" "ok" "ds = []" "a = ast_settype ast (Some f)"
  | (idseq) "\<not> ok" "a = ast" "ds \<noteq> []"
proof -
  from assms obtain c where c: "ast_child ast = Some c"
    by (auto simp: expr_reference_def split: Option.bind_splits)
  show thesis
  proof (cases "ast_get env ast (ast_name c)")
    case None
    with assms c show thesis by (intro miss[of c]) (auto simp: expr_reference_def)
  next
    case (Some d)
    note r = assms c Some
    note [simp] = expr_reference_def Let_def
    show thesis
    proof (cases "ast_id d = TK_PACKAGE")
      case True
      with r show thesis
        by (intro package[of c d]) (auto simp: c Some split: Option.bind_splits if_splits)
    next
      case np: False
      show thesis
      proof (cases "ast_id d = TK_TYPE \<or> ast_id d = TK_CLASS \<or> ast_id d = TK_ACTOR")
        case True
        from r np True obtain idn where "ast_child d = Some idn" "ok" "ds = []"
          "a = ast_settype ast (nominal_type env ast None (ast_name idn))"
          by (auto simp: Let_def split: Option.bind_splits)
        with True show thesis by (intro tydef[of c d idn]) (auto simp: c Some)
      next
        case nt: False
        show thesis
        proof (cases "ast_id d = TK_FVAR \<or> ast_id d = TK_FLET \<or> ast_id d = TK_PARAM")
          case True
          obtain b es where dbu: "def_before_use d ast (ast_name c) = (b, es)" by force
          from r np nt True dbu def_before_use_cases[OF dbu] show thesis
            by (intro field[of c d]) (auto simp: c Some Let_def split: bool.splits)
        next
          case nf: False
          show thesis
          proof (cases "ast_id d = TK_NEW \<or> ast_id d = TK_BE \<or> ast_id d = TK_FUN")
            case True
            from r np nt nf True obtain f where "type_for_fun d = Some f" "ok" "ds = []"
              "a = ast_settype ast (Some f)"
              by (auto simp: Let_def split: Option.bind_splits)
            with True show thesis by (intro routine[of c d f]) (auto simp: c Some)
          next
            case nm: False
            obtain b es where dbu: "def_before_use d ast (ast_name c) = (b, es)" by force
            from r np nt nf nm dbu def_before_use_cases[OF dbu] show thesis
              by (intro idseq) (auto simp: Let_def split: bool.splits if_splits)
          qed
        qed
      qed
    qed
  qed
qed











































lemma body_here_cases:
  "expr_fun_body_here ty body msg = Some (r, ds) \<Longrightarrow> \<not> r \<and> ds \<noteq> []"
  by (auto simp: expr_fun_body_here_def split: Option.bind_splits)



lemma fatal_unless_Some:
  "fatal_unless x = Some (res, a, ds) \<longleftrightarrow> x = Some (res = AST_OK, a, ds)"
  by (cases x; cases res) (auto simp: fatal_unless_def split: if_splits)






section \<open>The bare error marker\<close>


lemma subnodes_self: "a \<in> set (subnodes a)"
  by (cases a) simp

lemma subnodes_child: "c \<in> set (ast_children a) \<Longrightarrow> set (subnodes c) \<subseteq> set (subnodes a)"
  by (cases a) auto

lemma subnodes_type: "ast_type a = Some t \<Longrightarrow> set (subnodes t) \<subseteq> set (subnodes a)"
  by (cases a) auto

lemma ast_child_mem: "ast_child a = Some c \<Longrightarrow> c \<in> set (ast_children a)"
  by (auto simp: ast_child_def split: list.splits)

lemma ast_childidx_mem: "ast_childidx a i = Some c \<Longrightarrow> c \<in> set (ast_children a)"
  by (auto simp: ast_childidx_def split: if_splits)

lemma ast_childlast_mem: "ast_childlast a = Some c \<Longrightarrow> c \<in> set (ast_children a)"
  by (auto simp: ast_childlast_def split: if_splits)

lemma src_child: "c \<in> set (ast_children a) \<Longrightarrow> c \<in> set (subnodes a)"
  using subnodes_child[of c a] subnodes_self[of c] by auto

lemma src_child_type:
  "c \<in> set (ast_children a) \<Longrightarrow> ast_type c = Some t \<Longrightarrow> t \<in> set (subnodes a)"
  using subnodes_child[of c a] subnodes_type[of c t] subnodes_self[of t] by auto

lemma src_first: "ast_child a = Some c \<Longrightarrow> ast_type c = Some t \<Longrightarrow> t \<in> set (subnodes a)"
  by (blast intro: src_child_type ast_child_mem)

lemma src_idx: "ast_childidx a i = Some c \<Longrightarrow> ast_type c = Some t \<Longrightarrow> t \<in> set (subnodes a)"
  by (blast intro: src_child_type ast_childidx_mem)

lemma src_idx_self: "ast_childidx a i = Some t \<Longrightarrow> t \<in> set (subnodes a)"
  by (blast intro: src_child ast_childidx_mem)

lemma type_union_cases:
  "type_union env s l r = Some u \<Longrightarrow> l = Some u \<or> r = Some u \<or> ast_id u = TK_UNIONTYPE"
  by (auto simp: type_union_def ast_add_def ast_from_def
      split: option.splits Option.bind_splits dest: type_super_Some)


lemma ms_sub: "t \<in> set (subnodes ast) \<Longrightarrow> marker_source env ast t"
  by (simp add: marker_source_def)

lemma ms_own: "ast_type ast = Some t \<Longrightarrow> marker_source env ast t"
  using subnodes_type[of ast t] subnodes_self[of t] by (auto simp: marker_source_def)

lemma src_grand:
  "ast_child a = Some c \<Longrightarrow> ast_type c = Some ty \<Longrightarrow> e \<in> set (subnodes ty) \<Longrightarrow>
   e \<in> set (subnodes a)"
  using subnodes_child[of c a] subnodes_type[of c ty] by (auto dest: ast_child_mem)

lemma tuple_index_loop_src:
  "tuple_index_loop T i = Some (Some e) \<Longrightarrow> e \<in> set (subnodes T)"
proof (induction T i rule: tuple_index_loop.induct)
  case (1 ast index)
  show ?case
  proof (cases "index > 1")
    case True
    with "1.prems" obtain right where r: "ast_childidx ast 1 = Some right"
      and k: "ast_id right = TK_TUPLETYPE"
      and rec: "tuple_index_loop right (index - 1) = Some (Some e)"
      by (subst (asm) tuple_index_loop.simps) (auto split: option.splits if_splits)
    from "1.IH"[OF True r _ rec] k have "e \<in> set (subnodes right)" by simp
    with subnodes_child[OF ast_childidx_mem[OF r]] show ?thesis by auto
  next
    case False
    with "1.prems" show ?thesis
      by (subst (asm) tuple_index_loop.simps)
         (auto split: option.splits if_splits
            dest: ast_child_mem ast_childidx_mem src_child
            intro: src_child subnodes_child[THEN subsetD])
  qed
qed

lemma type_for_fun_id: "type_for_fun d = Some f \<Longrightarrow> ast_id f = ast_id d"
  by (auto simp: type_for_fun_def Let_def ast_add_def ast_from_def
      split: if_splits Option.bind_splits)

lemma expr_tuple_loop_id: "expr_tuple_loop ast tuple cs = Some r \<Longrightarrow> ast_id r = ast_id tuple"
  by (cases "(ast, tuple, cs)" rule: expr_tuple_loop.cases)
     (auto simp: ast_append_def Let_def split: Option.bind_splits)

lemma src_field:
  "expr_field env ast = Some (True, a, ds) \<Longrightarrow> ast_type a = Some t \<Longrightarrow>
   marker_source env ast t"
  by (auto simp: expr_field_def split: if_splits Option.bind_splits
      intro!: ms_sub intro: src_idx src_idx_self)

lemma src_literal:
  "expr_literal env ast n = Some (True, a, ds) \<Longrightarrow> ast_type a = Some t \<Longrightarrow>
   ast_id t = TK_ERROR \<Longrightarrow>
   \<forall>n u. nominal_builtin env ast n = Some u \<longrightarrow> ast_id u \<noteq> TK_ERROR \<Longrightarrow>
   marker_source env ast t"
  by (auto simp: expr_literal_def split: option.splits)

lemma src_this:
  "expr_this env ctx ast = Some (True, a, ds) \<Longrightarrow> ast_type a = Some t \<Longrightarrow>
   ast_id t = TK_ERROR \<Longrightarrow> marker_source env ast t"
  by (auto simp: expr_this_def Let_def ast_add_def ast_from_def
      split: if_splits Option.bind_splits)

lemma src_reference:
  assumes "ast_id ast = TK_REFERENCE" and "expr_reference env ctx ast = Some (True, a, ds)"
    and "ast_type a = Some t" and "ast_id t = TK_ERROR"
    and "\<forall>pk n u. nominal_type env ast pk n = Some u \<longrightarrow> ast_id u \<noteq> TK_ERROR"
  shows "marker_source env ast t"
  using assms(2)
proof (cases rule: expr_reference_cases)
  case (package c d)
  with assms(3) show ?thesis by (simp add: ms_own)
next
  case (tydef c d idn)
  with assms(3,4,5) show ?thesis by auto
next
  case (field c d)
  with assms(1,3) show ?thesis by (auto simp: marker_source_def)
next
  case (routine c d f)
  with assms(3,4) type_for_fun_id[of d f] show ?thesis by auto
qed auto

lemma src_dot:
  assumes "expr_dot env ast = Some (True, a, ds)"
    and "ast_type a = Some t" and "ast_id t = TK_ERROR"
    and "\<forall>pk n u. nominal_type env ast pk n = Some u \<longrightarrow> ast_id u \<noteq> TK_ERROR"
  shows "marker_source env ast t"
proof -
  from assms(1) obtain left right where l: "ast_child ast = Some left"
    and r: "ast_childidx ast 1 = Some right"
    by (auto simp: expr_dot_def split: Option.bind_splits)
  note [simp] = expr_dot_def Let_def
  show ?thesis
  proof (cases "ast_id right = TK_ID")
    case True
    with assms l r show ?thesis
      by (auto split: if_splits option.splits)
  next
    case False
    show ?thesis
    proof (cases "ast_id right = TK_INT")
      case True
      with assms(1,2) l r False obtain T where T: "ast_type left = Some T"
        and ti: "tuple_index T (c_int (ast_int right)) = Some (Some t)"
        by (auto split: if_splits option.splits)
      from ti have "t \<in> set (subnodes T)"
        by (auto simp: tuple_index_def split: if_splits dest: tuple_index_loop_src)
      with l T show ?thesis by (auto intro!: ms_sub intro: src_grand)
    next
      case f: False
      with assms l r False show ?thesis by auto
    qed
  qed
qed

lemma src_identity:
  "expr_identity env ast = Some (True, a, ds) \<Longrightarrow> ast_type a = Some t \<Longrightarrow>
   ast_id t = TK_ERROR \<Longrightarrow>
   \<forall>n u. nominal_builtin env ast n = Some u \<longrightarrow> ast_id u \<noteq> TK_ERROR \<Longrightarrow>
   marker_source env ast t"
  by (auto simp: expr_identity_def Let_def expr_literal_def
      split: if_splits Option.bind_splits option.splits)

lemma src_compare:
  "expr_compare env ast = Some (True, a, ds) \<Longrightarrow> ast_type a = Some t \<Longrightarrow>
   ast_id t = TK_ERROR \<Longrightarrow>
   \<forall>n u. nominal_builtin env ast n = Some u \<longrightarrow> ast_id u \<noteq> TK_ERROR \<Longrightarrow>
   marker_source env ast t"
  by (auto simp: expr_compare_def Let_def split: if_splits Option.bind_splits)

lemma src_order:
  "expr_order env ast = Some (True, a, ds) \<Longrightarrow> ast_type a = Some t \<Longrightarrow>
   ast_id t = TK_ERROR \<Longrightarrow>
   \<forall>n u. nominal_builtin env ast n = Some u \<longrightarrow> ast_id u \<noteq> TK_ERROR \<Longrightarrow>
   marker_source env ast t"
  by (auto simp: expr_order_def Let_def split: if_splits Option.bind_splits)

lemma src_arithmetic:
  "expr_arithmetic env ast = Some (True, a, ds) \<Longrightarrow> ast_type a = Some t \<Longrightarrow>
   marker_source env ast t"
  by (auto simp: expr_arithmetic_def Let_def type_arithmetic_def
      split: Option.bind_splits option.splits
      dest!: type_super_Some type_builtin_Some intro!: ms_sub intro: src_first src_idx)

lemma src_minus:
  "expr_minus env ast = Some (True, a, ds) \<Longrightarrow> ast_type a = Some t \<Longrightarrow>
   marker_source env ast t"
  by (auto simp: expr_minus_def Let_def type_arithmetic_def
      split: Option.bind_splits option.splits
      dest!: type_super_Some type_builtin_Some intro!: ms_sub intro: src_first src_idx)

lemma src_shift:
  "expr_shift env ast = Some (True, a, ds) \<Longrightarrow> ast_type a = Some t \<Longrightarrow>
   marker_source env ast t"
  by (auto simp: expr_shift_def Let_def type_int_def
      split: Option.bind_splits if_splits
      dest!: type_builtin_Some intro!: ms_sub intro: src_first src_idx)

lemma src_logical:
  assumes "expr_logical env ast = Some (True, a, ds)" and "ast_type a = Some t"
  shows "marker_source env ast t"
proof -
  from assms obtain left right where l: "ast_child ast = Some left"
    and r: "ast_childidx ast 1 = Some right"
    by (auto simp: expr_logical_def split: Option.bind_splits)
  obtain lt lds where tl: "type_int_or_bool env left = (lt, lds)" by force
  obtain rt rds where tr: "type_int_or_bool env right = (rt, rds)" by force
  from assms l r tl tr have "type_super env ast lt rt = Some t"
    by (auto simp: expr_logical_def split: option.splits)
  with type_int_or_bool_cases[OF tl] type_int_or_bool_cases[OF tr]
  have "ast_type left = Some t \<or> ast_type right = Some t"
    by (auto dest!: type_super_Some)
  with l r show ?thesis by (auto intro!: ms_sub intro: src_first src_idx)
qed

lemma src_not:
  assumes "expr_not env ast = Some (True, a, ds)" and "ast_type a = Some t"
  shows "marker_source env ast t"
proof -
  from assms obtain child where c: "ast_child ast = Some child"
    by (auto simp: expr_not_def split: Option.bind_splits)
  obtain ty tds where tc: "type_int_or_bool env child = (ty, tds)" by force
  from assms c tc type_int_or_bool_cases[OF tc] have "ast_type child = Some t"
    by (cases ty) (auto simp: expr_not_def)
  with c show ?thesis by (auto intro!: ms_sub intro: src_first)
qed

lemma src_assign:
  "expr_assign env ast = Some (True, a, ds) \<Longrightarrow> ast_type a = Some t \<Longrightarrow>
   marker_source env ast t"
  by (auto simp: expr_assign_def Let_def split: if_splits Option.bind_splits
      intro!: ms_sub intro: src_first)

lemma src_none_nominal:
  "a = ast_settype ast (nominal_builtin env ast n) \<Longrightarrow> ast_type a = Some t \<Longrightarrow>
   ast_id t = TK_ERROR \<Longrightarrow>
   \<forall>n u. nominal_builtin env ast n = Some u \<longrightarrow> ast_id u \<noteq> TK_ERROR \<Longrightarrow>
   marker_source env ast t"
  by auto

lemma src_while:
  "expr_while env ast = Some (True, a, ds) \<Longrightarrow> ast_type a = Some t \<Longrightarrow>
   ast_id t = TK_ERROR \<Longrightarrow>
   \<forall>n u. nominal_builtin env ast n = Some u \<longrightarrow> ast_id u \<noteq> TK_ERROR \<Longrightarrow>
   marker_source env ast t"
  by (auto simp: expr_while_def split: if_splits Option.bind_splits)

lemma src_repeat:
  "expr_repeat env ast = Some (True, a, ds) \<Longrightarrow> ast_type a = Some t \<Longrightarrow>
   ast_id t = TK_ERROR \<Longrightarrow>
   \<forall>n u. nominal_builtin env ast n = Some u \<longrightarrow> ast_id u \<noteq> TK_ERROR \<Longrightarrow>
   marker_source env ast t"
  by (auto simp: expr_repeat_def split: if_splits Option.bind_splits)

lemma src_continue:
  "expr_continue env ctx ast = Some (True, a, ds) \<Longrightarrow> ast_type a = Some t \<Longrightarrow>
   ast_id t = TK_ERROR \<Longrightarrow>
   \<forall>n u. nominal_builtin env ast n = Some u \<longrightarrow> ast_id u \<noteq> TK_ERROR \<Longrightarrow>
   marker_source env ast t"
  by (auto simp: expr_continue_def split: option.splits)

lemma src_if:
  assumes "expr_if env ast = Some (True, a, ds)" and "ast_type a = Some t"
    and "ast_id t = TK_ERROR"
    and "\<forall>n u. nominal_builtin env ast n = Some u \<longrightarrow> ast_id u \<noteq> TK_ERROR"
  shows "marker_source env ast t"
proof -
  from assms(1) obtain cond left right where l: "ast_childidx ast 1 = Some left"
    and r: "ast_childidx ast 2 = Some right"
    and u: "type_union env ast (ast_type left)
              (if ast_id right = TK_NONE then nominal_builtin env ast ''None'' else ast_type right)
            = Some t"
    using assms(2)
    by (auto simp: expr_if_def Let_def split: if_splits Option.bind_splits)
  from type_union_cases[OF u] assms(3,4) have "ast_type left = Some t \<or> ast_type right = Some t"
    by (auto split: if_splits)
  with l r show ?thesis by (auto intro!: ms_sub intro: src_idx)
qed

lemma src_tuple:
  "expr_tuple ast = Some (True, a, ds) \<Longrightarrow> ast_type a = Some t \<Longrightarrow>
   ast_id t = TK_ERROR \<Longrightarrow> marker_source env ast t"
  by (auto simp: expr_tuple_def Let_def ast_append_def ast_from_def
      split: list.splits Option.bind_splits
      dest!: expr_tuple_loop_id intro!: ms_sub intro: src_child_type)

lemma src_call:
  assumes "expr_call env ast = Some (True, a, ds)" and "ast_type a = Some t"
  shows "marker_source env ast t"
proof -
  from assms(1) obtain left ty where l: "ast_child ast = Some left" and t: "ast_type left = Some ty"
    by (auto simp: expr_call_def split: Option.bind_splits)
  from assms l t have "ast_childidx ty 4 = Some t"
    by (auto simp: expr_call_def Let_def split: if_splits)
  then have "t \<in> set (subnodes ty)" by (rule src_idx_self)
  with l t show ?thesis by (auto intro!: ms_sub intro: src_grand)
qed

lemma src_return:
  assumes "expr_return env ctx ast = Some (True, a, ds)" and "ast_type a = Some t"
  shows "marker_source env ast t"
proof -
  have "a = ast"
    using assms(1)
    by (cases "ast_sibling ctx")
       (auto simp: expr_return_def Let_def split: if_splits Option.bind_splits option.splits)
  with assms(2) show ?thesis by (simp add: ms_own)
qed

lemma body_here_False:
  "expr_fun_body_here ty body msg = Some (r, ds) \<Longrightarrow> \<not> r"
  by (auto simp: expr_fun_body_here_def split: Option.bind_splits)

lemma src_fun:
  assumes "expr_fun env ctx ast = Some (True, a, ds)" and "ast_type a = Some t"
  shows "marker_source env ast t"
proof -
  have "a = ast"
    using assms(1)
    by (auto simp: expr_fun_def Let_def split: if_splits Option.bind_splits prod.splits)
  with assms(2) show ?thesis by (simp add: ms_own)
qed

lemma src_error:
  "ast_id ast = TK_ERROR \<Longrightarrow> marker_source env ast t"
  by (simp add: marker_source_def)

lemma src_seq:
  assumes "ast_id ast = TK_SEQ" and "expr_seq env ast = Some (True, a, ds)"
    and "ast_type a = Some t" and "ast_id t = TK_ERROR"
  shows "marker_source env ast t"
proof -
  from assms(2) obtain c where c: "ast_child ast = Some c"
    by (auto simp: expr_seq_def split: Option.bind_splits)
  then have ne: "ast_children ast \<noteq> []" by (auto simp: ast_child_def split: list.splits)
  then have lc: "ast_childlast ast = Some (last (ast_children ast))"
    by (simp add: ast_childlast_def)
  let ?l = "ast_type (last (ast_children ast))"
  let ?e = "ast_from ast TK_ERROR"
  from assms(2,3) c ne
  have "?l = Some t \<or> type_union env ast ?l (Some ?e) = Some t"
    by (auto simp: expr_seq_def expr_seq_loop_eq Let_def split: if_splits Option.bind_splits)
  then show ?thesis
  proof
    assume "?l = Some t"
    with lc show ?thesis by (auto intro!: ms_sub intro: src_child_type ast_childlast_mem)
  next
    assume u: "type_union env ast ?l (Some ?e) = Some t"
    show ?thesis
    proof (cases "type_super env ast ?l (Some ?e)")
      case None
      with u have "ast_id t = TK_UNIONTYPE"
        by (auto simp: type_union_def ast_add_def ast_from_def Let_def split: Option.bind_splits)
      with assms(4) show ?thesis by simp
    next
      case (Some s)
      with u have st: "s = t" by (simp add: type_union_def)
      from Some st have "(is_subtype env ast ?l (Some ?e) \<and> t = ?e) \<or> ?l = Some t"
        by (auto simp: type_super_def split: if_splits)
      with assms(1) lc show ?thesis
        by (auto simp: marker_source_def intro: src_child_type ast_childlast_mem)
    qed
  qed
qed


lemma src_consume: "expr_consume ast = Some (True, a, ds) \<Longrightarrow> marker_source env ast t"
  by (simp add: expr_consume_def)

lemma src_qualify: "expr_qualify ast = Some (True, a, ds) \<Longrightarrow> marker_source env ast t"
  by (simp add: expr_qualify_def)

lemma src_untouched: "ast = a \<Longrightarrow> ast_type a = Some t \<Longrightarrow> marker_source env a t"
  by (simp add: ms_own)

text \<open>
  Claim C4, as the code has it. When an accepting visit leaves a node with the bare
  \<^verbatim>\<open>ERROR\<close> marker as its attached type, then the node is an \<^verbatim>\<open>error\<close> expression, or it is
  a \<^verbatim>\<open>SEQ\<close> whose last child's type is a subtype of the marker (so that \<^verbatim>\<open>type_union\<close>
  returns the marker made by \<^verbatim>\<open>expr_seq\<close>), or the marker was in the tree before the visit
  (a declared type or a type attached to the node or below it), or it is the type of the
  definition that the reference resolves to. The nominal constructors are assumed not to
  return the marker.
\<close>

theorem bare_marker_source:
  assumes "type_expr env ctx ast = Some (AST_OK, ast', ds)"
    and "ast_type ast' = Some t" and "ast_id t = TK_ERROR"
    and "\<forall>n u. nominal_builtin env ast n = Some u \<longrightarrow> ast_id u \<noteq> TK_ERROR"
    and "\<forall>pk n u. nominal_type env ast pk n = Some u \<longrightarrow> ast_id u \<noteq> TK_ERROR"
  shows "marker_source env ast t"
  using assms
  apply (cases "ast_id ast"; simp add: type_expr_def fatal_unless_Some)
  apply ((rule src_field src_fun src_seq src_continue src_return src_arithmetic src_minus
          src_shift src_order src_compare src_identity src_logical src_not src_assign
          src_dot src_call src_if src_while src_repeat src_tuple src_reference src_this
          src_literal src_error src_untouched src_consume src_qualify;
       (assumption | (simp; fail)))+)
  done


theorem bare_marker_source_witness:
  "type_expr sample_env no_links
     (Ast TK_SEQ 3 5 [] 0
        [Ast TK_ERROR 3 5 [] 0 [] (Some (Ast TK_ERROR 3 5 [] 0 [] None))] None)
   = Some (AST_OK,
       Ast TK_SEQ 3 5 [] 0
        [Ast TK_ERROR 3 5 [] 0 [] (Some (Ast TK_ERROR 3 5 [] 0 [] None))]
        (Some (Ast TK_ERROR 3 5 [] 0 [] None)), [])
   \<and> marker_source sample_env
       (Ast TK_SEQ 3 5 [] 0
          [Ast TK_ERROR 3 5 [] 0 [] (Some (Ast TK_ERROR 3 5 [] 0 [] None))] None)
       (Ast TK_ERROR 3 5 [] 0 [] None)"
proof -
  let ?S = "Ast TK_SEQ 3 5 [] 0
        [Ast TK_ERROR 3 5 [] 0 [] (Some (Ast TK_ERROR 3 5 [] 0 [] None))] None"
  let ?E = "Ast TK_ERROR 3 5 [] 0 [] None"
  have run: "type_expr sample_env no_links ?S =
      Some (AST_OK, Ast TK_SEQ 3 5 [] 0
        [Ast TK_ERROR 3 5 [] 0 [] (Some ?E)] (Some ?E), [])"
    by (simp add: sample_defs type_expr_def fatal_unless_def expr_seq_def ast_child_def
        type_union_def type_super_def ast_from_def ast_settype_def Let_def)
  have n1: "\<forall>n u. nominal_builtin sample_env ?S n = Some u \<longrightarrow> ast_id u \<noteq> TK_ERROR"
    by (auto simp: sample_defs)
  have n2: "\<forall>pk n u. nominal_type sample_env ?S pk n = Some u \<longrightarrow> ast_id u \<noteq> TK_ERROR"
    by (auto simp: sample_defs)
  from bare_marker_source[OF run _ _ n1 n2, of ?E] run show ?thesis by simp
qed

text \<open>
  Claim C4 as stated fails. A sequence whose only expression is \<^verbatim>\<open>error\<close> gets the bare
  marker as its type, and so does a field without a declared type whose initialiser is
  such a sequence; neither node is an \<^verbatim>\<open>error\<close> expression.
\<close>

theorem bare_marker_counterexample:
  "type_expr sample_env no_links
     (Ast TK_SEQ 3 5 [] 0
        [Ast TK_ERROR 3 5 [] 0 [] (Some (Ast TK_ERROR 3 5 [] 0 [] None))] None)
   = Some (AST_OK,
       Ast TK_SEQ 3 5 [] 0
        [Ast TK_ERROR 3 5 [] 0 [] (Some (Ast TK_ERROR 3 5 [] 0 [] None))]
        (Some (Ast TK_ERROR 3 5 [] 0 [] None)), [])
   \<and> type_expr sample_env no_links
     (Ast TK_FLET 2 3 [] 0
        [Ast TK_ID 2 7 ''x'' 0 [] None, Ast TK_NONE 2 8 [] 0 [] None,
         Ast TK_SEQ 3 5 [] 0
           [Ast TK_ERROR 3 5 [] 0 [] (Some (Ast TK_ERROR 3 5 [] 0 [] None))]
           (Some (Ast TK_ERROR 3 5 [] 0 [] None))] None)
   = Some (AST_OK,
       Ast TK_FLET 2 3 [] 0
        [Ast TK_ID 2 7 ''x'' 0 [] None, Ast TK_NONE 2 8 [] 0 [] None,
         Ast TK_SEQ 3 5 [] 0
           [Ast TK_ERROR 3 5 [] 0 [] (Some (Ast TK_ERROR 3 5 [] 0 [] None))]
           (Some (Ast TK_ERROR 3 5 [] 0 [] None))]
        (Some (Ast TK_ERROR 3 5 [] 0 [] None)), [])"
  by (simp add: sample_defs type_expr_def fatal_unless_def expr_seq_def expr_field_def
      ast_child_def ast_childidx_def type_union_def type_super_def ast_from_def ast_settype_def
      Let_def)

section \<open>Visiting a node again\<close>


lemma frame_api:
  "ast_child (ast_settype a t) = ast_child a"
  "ast_childidx (ast_settype a t) i = ast_childidx a i"
  "ast_childlast (ast_settype a t) = ast_childlast a"
  "ast_from (ast_settype a t) k = ast_from a k"
  "ast_from_string (ast_settype a t) n = ast_from_string a n"
  "ast_error (ast_settype a t) m = ast_error a m"
  "ast_settype (ast_settype a t) u = ast_settype a u"
  by (simp_all add: ast_child_def ast_childidx_def ast_childlast_def ast_from_def
      ast_from_string_def ast_error_def ast_settype_def)

lemma frame_env:
  assumes "scope_blind env"
  shows "is_subtype env (ast_settype s t) = is_subtype env s"
    and "is_eqtype env (ast_settype s t) = is_eqtype env s"
    and "nominal_builtin env (ast_settype s t) = nominal_builtin env s"
    and "nominal_type env (ast_settype s t) = nominal_type env s"
    and "cap_for_receiver env (ast_settype s t) = cap_for_receiver env s"
    and "ast_get env (ast_settype s t) = ast_get env s"
  using assms by (simp_all add: scope_blind_def)

lemma frame_super:
  "scope_blind env \<Longrightarrow> type_super env (ast_settype s t) l r = type_super env s l r"
  by (simp add: type_super_def frame_env)

lemma frame_union:
  "scope_blind env \<Longrightarrow> type_union env (ast_settype s t) l r = type_union env s l r"
  by (simp add: type_union_def frame_super frame_api Let_def cong: option.case_cong)

lemma frame_seq_loop:
  "scope_blind env \<Longrightarrow>
   expr_seq_loop env (ast_settype s t) e cs acc = expr_seq_loop env s e cs acc"
  by (cases acc) (simp add: expr_seq_loop_eq frame_env)

lemma frame_typeargs:
  "scope_blind env \<Longrightarrow>
   expr_this_typeargs env (ast_settype s t) ta ps = expr_this_typeargs env s ta ps"
  by (induction ps arbitrary: ta) (simp_all add: frame_env)

lemma frame_tuple_loop:
  "expr_tuple_loop (ast_settype s t) tuple cs = expr_tuple_loop s tuple cs"
  by (induction s tuple cs rule: expr_tuple_loop.induct)
     (auto simp: frame_api Let_def split: Option.bind_split)

lemma frame_dbu: "def_before_use d (ast_settype s t) n = def_before_use d s n"
  by (simp add: def_before_use_def frame_api)

lemma settype_own: "ast_settype a (ast_type a) = a"
  by (cases a) (simp add: ast_settype_def)

lemmas frame = frame_api frame_env frame_super frame_union frame_seq_loop frame_typeargs
  frame_tuple_loop frame_dbu

lemma rerun_field:
  "scope_blind env \<Longrightarrow> expr_field env ast = Some (True, a, ds) \<Longrightarrow>
   ast_id a = ast_id ast \<and> ds = [] \<and> expr_field env a = Some (True, a, [])"
  by (auto simp: expr_field_def frame split: if_splits Option.bind_splits)

lemma rerun_literal:
  "scope_blind env \<Longrightarrow> expr_literal env ast n = Some (True, a, ds) \<Longrightarrow>
   ast_id a = ast_id ast \<and> ds = [] \<and> expr_literal env a n = Some (True, a, [])"
  by (auto simp: expr_literal_def frame split: option.splits)

lemma rerun_this:
  "scope_blind env \<Longrightarrow> expr_this env ctx ast = Some (True, a, ds) \<Longrightarrow>
   ast_id a = ast_id ast \<and> ds = [] \<and> expr_this env ctx a = Some (True, a, [])"
  by (auto simp: expr_this_def frame Let_def split: if_splits Option.bind_splits)

lemma rerun_reference:
  assumes sb: "scope_blind env" and run: "expr_reference env ctx ast = Some (True, a, ds)"
  shows "ast_id a = ast_id ast \<and> ds = [] \<and> expr_reference env ctx a = Some (True, a, [])"
  using run
proof (cases rule: expr_reference_cases)
  case (package c d)
  with run show ?thesis by auto
next
  case (tydef c d idn)
  with sb show ?thesis
    by (auto simp: expr_reference_def frame Let_def)
next
  case (field c d)
  then have a: "a = ast_settype ast (ast_type d)" and e: "ds = []" by auto
  from run field sb have "def_before_use d ast (ast_name c) = (True, [])"
    by (cases "def_before_use d ast (ast_name c)")
       (auto simp: expr_reference_def Let_def split: bool.splits if_splits)
  with field a e sb show ?thesis
    by (auto simp: expr_reference_def frame Let_def)
next
  case (routine c d f)
  with sb show ?thesis
    by (auto simp: expr_reference_def frame Let_def)
qed auto

lemma rerun_dot:
  assumes sb: "scope_blind env" and run: "expr_dot env ast = Some (True, a, ds)"
  shows "ast_id a = ast_id ast \<and> ds = [] \<and> expr_dot env a = Some (True, a, [])"
proof -
  from run obtain left right where l: "ast_child ast = Some left"
    and r: "ast_childidx ast 1 = Some right"
    by (auto simp: expr_dot_def split: Option.bind_splits)
  note [simp] = expr_dot_def Let_def frame_env[OF sb] frame_api
  show ?thesis
  proof (cases "ast_id right = TK_ID")
    case True
    with run l r show ?thesis
      by (auto split: if_splits option.splits)
  next
    case False
    show ?thesis
    proof (cases "ast_id right = TK_INT")
      case True
      with run l r False show ?thesis
        by (auto split: if_splits option.splits)
    next
      case f: False
      with run l r False show ?thesis by auto
    qed
  qed
qed

lemma rerun_qualify:
  "expr_qualify ast = Some (True, a, ds) \<Longrightarrow>
   ast_id a = ast_id ast \<and> ds = [] \<and> expr_qualify a = Some (True, a, [])"
  by (simp add: expr_qualify_def)

lemma rerun_consume:
  "expr_consume ast = Some (True, a, ds) \<Longrightarrow>
   ast_id a = ast_id ast \<and> ds = [] \<and> expr_consume a = Some (True, a, [])"
  by (simp add: expr_consume_def)

lemma rerun_identity:
  "scope_blind env \<Longrightarrow> expr_identity env ast = Some (True, a, ds) \<Longrightarrow>
   ast_id a = ast_id ast \<and> ds = [] \<and> expr_identity env a = Some (True, a, [])"
  by (auto simp: expr_identity_def expr_literal_def frame Let_def
      split: if_splits Option.bind_splits option.splits)

lemma rerun_compare:
  "scope_blind env \<Longrightarrow> expr_compare env ast = Some (True, a, ds) \<Longrightarrow>
   ast_id a = ast_id ast \<and> ds = [] \<and> expr_compare env a = Some (True, a, [])"
  by (auto simp: expr_compare_def frame Let_def split: if_splits Option.bind_splits)

lemma rerun_order:
  "scope_blind env \<Longrightarrow> expr_order env ast = Some (True, a, ds) \<Longrightarrow>
   ast_id a = ast_id ast \<and> ds = [] \<and> expr_order env a = Some (True, a, [])"
  by (auto simp: expr_order_def frame Let_def split: if_splits Option.bind_splits)

lemma rerun_arithmetic:
  "scope_blind env \<Longrightarrow> expr_arithmetic env ast = Some (True, a, ds) \<Longrightarrow>
   ast_id a = ast_id ast \<and> ds = [] \<and> expr_arithmetic env a = Some (True, a, [])"
  by (auto simp: expr_arithmetic_def frame Let_def split: option.splits Option.bind_splits)

lemma rerun_minus:
  "scope_blind env \<Longrightarrow> expr_minus env ast = Some (True, a, ds) \<Longrightarrow>
   ast_id a = ast_id ast \<and> ds = [] \<and> expr_minus env a = Some (True, a, [])"
  by (auto simp: expr_minus_def frame Let_def split: option.splits Option.bind_splits)

lemma rerun_shift:
  "scope_blind env \<Longrightarrow> expr_shift env ast = Some (True, a, ds) \<Longrightarrow>
   ast_id a = ast_id ast \<and> ds = [] \<and> expr_shift env a = Some (True, a, [])"
  by (auto simp: expr_shift_def frame Let_def split: if_splits Option.bind_splits)

lemma rerun_logical:
  assumes sb: "scope_blind env" and run: "expr_logical env ast = Some (True, a, ds)"
  shows "ast_id a = ast_id ast \<and> ds = [] \<and> expr_logical env a = Some (True, a, [])"
proof -
  from run obtain left right where l: "ast_child ast = Some left"
    and r: "ast_childidx ast 1 = Some right"
    by (auto simp: expr_logical_def split: Option.bind_splits)
  obtain lt lds where tl: "type_int_or_bool env left = (lt, lds)" by force
  obtain rt rds where tr: "type_int_or_bool env right = (rt, rds)" by force
  from run l r tl tr obtain t where ts: "type_super env ast lt rt = Some t"
    and a: "a = ast_settype ast (Some t)" and d: "ds = lds @ rds"
    by (auto simp: expr_logical_def split: option.splits)
  from ts have "lt \<noteq> None \<and> rt \<noteq> None" by (auto simp: type_super_def split: if_splits)
  with type_int_or_bool_cases[OF tl] type_int_or_bool_cases[OF tr]
  have e: "lds = []" "rds = []" by auto
  with l r tl tr ts a d sb show ?thesis
    by (simp add: expr_logical_def frame)
qed

lemma rerun_not:
  assumes sb: "scope_blind env" and run: "expr_not env ast = Some (True, a, ds)"
  shows "ast_id a = ast_id ast \<and> ds = [] \<and> expr_not env a = Some (True, a, [])"
proof -
  from run obtain child where c: "ast_child ast = Some child"
    by (auto simp: expr_not_def split: Option.bind_splits)
  obtain ty tds where tc: "type_int_or_bool env child = (ty, tds)" by force
  from run c tc obtain t where t: "ty = Some t" and a: "a = ast_settype ast (Some t)"
    and d: "ds = tds"
    by (cases ty) (auto simp: expr_not_def)
  from type_int_or_bool_cases[OF tc] t have "tds = []" by auto
  with c tc t a d sb show ?thesis
    by (simp add: expr_not_def frame)
qed

lemma rerun_tuple:
  "expr_tuple ast = Some (True, a, ds) \<Longrightarrow>
   ast_id a = ast_id ast \<and> ds = [] \<and> expr_tuple a = Some (True, a, [])"
  by (auto simp: expr_tuple_def frame_api frame_tuple_loop Let_def
      split: list.splits Option.bind_splits)

lemma rerun_call:
  assumes sb: "scope_blind env" and run: "expr_call env ast = Some (True, a, ds)"
  shows "ast_id a = ast_id ast \<and> ds = [] \<and> expr_call env a = Some (True, a, [])"
proof -
  from run obtain left ty where l: "ast_child ast = Some left" and t: "ast_type left = Some ty"
    by (auto simp: expr_call_def split: Option.bind_splits)
  show ?thesis
  proof (cases "ast_id ty = TK_NEW \<or> ast_id ty = TK_BE \<or> ast_id ty = TK_FUN")
    case True
    with run l t sb show ?thesis
      by (auto simp: expr_call_def frame Let_def split: if_splits)
  next
    case False
    with run l t show ?thesis
      by (auto simp: expr_call_def Let_def split: if_splits)
  qed
qed

lemma rerun_if:
  "scope_blind env \<Longrightarrow> expr_if env ast = Some (True, a, ds) \<Longrightarrow>
   ast_id a = ast_id ast \<and> ds = [] \<and> expr_if env a = Some (True, a, [])"
  by (auto simp: expr_if_def frame Let_def split: if_splits Option.bind_splits)

lemma rerun_while:
  "scope_blind env \<Longrightarrow> expr_while env ast = Some (True, a, ds) \<Longrightarrow>
   ast_id a = ast_id ast \<and> ds = [] \<and> expr_while env a = Some (True, a, [])"
  by (auto simp: expr_while_def frame split: if_splits Option.bind_splits)

lemma rerun_repeat:
  "scope_blind env \<Longrightarrow> expr_repeat env ast = Some (True, a, ds) \<Longrightarrow>
   ast_id a = ast_id ast \<and> ds = [] \<and> expr_repeat env a = Some (True, a, [])"
  by (auto simp: expr_repeat_def frame split: if_splits Option.bind_splits)

lemma rerun_continue:
  "scope_blind env \<Longrightarrow> expr_continue env ctx ast = Some (True, a, ds) \<Longrightarrow>
   ast_id a = ast_id ast \<and> ds = [] \<and> expr_continue env ctx a = Some (True, a, [])"
  by (auto simp: expr_continue_def frame split: option.splits)

lemma rerun_return:
  assumes "expr_return env ctx ast = Some (True, a, ds)"
  shows "ast_id a = ast_id ast \<and> ds = [] \<and> expr_return env ctx a = Some (True, a, [])"
proof -
  have "a = ast \<and> ds = []"
    using assms
    by (cases "ast_sibling ctx")
       (auto simp: expr_return_def Let_def split: if_splits Option.bind_splits option.splits)
  with assms show ?thesis by simp
qed

lemma rerun_fun:
  assumes "expr_fun env ctx ast = Some (True, a, ds)"
  shows "ast_id a = ast_id ast \<and> ds = [] \<and> expr_fun env ctx a = Some (True, a, [])"
proof -
  have "a = ast \<and> ds = []"
    using assms
    by (auto simp: expr_fun_def Let_def split: if_splits Option.bind_splits prod.splits
        dest!: body_here_cases)
  with assms show ?thesis by simp
qed

lemma rerun_assign:
  "scope_blind env \<Longrightarrow> expr_assign env ast = Some (True, a, ds) \<Longrightarrow>
   ast_id a = ast_id ast \<and> ds = [] \<and> expr_assign env a = Some (True, a, [])"
  by (auto simp: expr_assign_def frame Let_def split: if_splits Option.bind_splits)

lemma rerun_error:
  "expr_error ctx ast = Some (True, a, ds) \<Longrightarrow>
   ast_id a = ast_id ast \<and> ds = [] \<and> expr_error ctx a = Some (True, a, [])"
  by (auto simp: expr_error_def frame_api split: option.splits)

lemma rerun_seq:
  "scope_blind env \<Longrightarrow> expr_seq env ast = Some (True, a, ds) \<Longrightarrow>
   ast_id a = ast_id ast \<and> ds = [] \<and> expr_seq env a = Some (True, a, [])"
  by (auto simp: expr_seq_def expr_seq_loop_eq frame Let_def
      split: if_splits Option.bind_splits)

lemma type_expr_rerun_kind:
  assumes "scope_blind env" and "type_expr env ctx ast = Some (AST_OK, ast', ds)"
  shows "ast_id ast' = ast_id ast \<and> ds = []"
  using assms
  apply (cases "ast_id ast"; simp add: type_expr_def fatal_unless_Some)
  apply ((drule rerun_field rerun_fun rerun_seq rerun_continue rerun_return rerun_arithmetic
          rerun_minus rerun_shift rerun_order rerun_compare rerun_identity rerun_logical
          rerun_not rerun_assign rerun_consume rerun_dot rerun_qualify rerun_call rerun_if
          rerun_while rerun_repeat rerun_tuple rerun_reference rerun_this rerun_literal
          rerun_error, (assumption | simp)+)+)
  done

text \<open>
  Claim C9, as the code has it. Visiting a node a second time, after a visit that accepted
  it, with the same links and with collaborators that give the same answers as at the
  first visit (they use the scope node as a location only; in particular the scope lookup
  hands back every definition with the type it carried at the first visit), returns
  \<^verbatim>\<open>AST_OK\<close>, emits no diagnostic and leaves the node, its attached type included, as the
  first visit left it; the first visit emitted no diagnostic either.
\<close>

theorem type_expr_idempotent:
  assumes "scope_blind env" and "type_expr env ctx ast = Some (AST_OK, ast', ds)"
  shows "ds = [] \<and> type_expr env ctx ast' = Some (AST_OK, ast', [])"
proof -
  from type_expr_rerun_kind[OF assms] have k: "ast_id ast' = ast_id ast" and d: "ds = []"
    by auto
  have "type_expr env ctx ast' = Some (AST_OK, ast', [])"
    using k assms
    apply (cases "ast_id ast")
    apply (simp_all add: type_expr_def fatal_unless_Some)
    apply ((rule rerun_field[THEN conjunct2, THEN conjunct2] rerun_fun[THEN conjunct2, THEN
          conjunct2] rerun_seq[THEN conjunct2, THEN conjunct2] rerun_continue[THEN
          conjunct2, THEN conjunct2] rerun_return[THEN conjunct2, THEN conjunct2]
          rerun_arithmetic[THEN conjunct2, THEN conjunct2] rerun_minus[THEN conjunct2,
          THEN conjunct2] rerun_shift[THEN conjunct2, THEN conjunct2] rerun_order[THEN
          conjunct2, THEN conjunct2] rerun_compare[THEN conjunct2, THEN conjunct2]
          rerun_identity[THEN conjunct2, THEN conjunct2] rerun_logical[THEN conjunct2,
          THEN conjunct2] rerun_not[THEN conjunct2, THEN conjunct2] rerun_assign[THEN
          conjunct2, THEN conjunct2] rerun_consume[THEN conjunct2, THEN conjunct2]
          rerun_dot[THEN conjunct2, THEN conjunct2] rerun_qualify[THEN conjunct2, THEN
          conjunct2] rerun_call[THEN conjunct2, THEN conjunct2] rerun_if[THEN conjunct2,
          THEN conjunct2] rerun_while[THEN conjunct2, THEN conjunct2] rerun_repeat[THEN
          conjunct2, THEN conjunct2] rerun_tuple[THEN conjunct2, THEN conjunct2]
          rerun_reference[THEN conjunct2, THEN conjunct2] rerun_this[THEN conjunct2, THEN
          conjunct2] rerun_literal[THEN conjunct2, THEN conjunct2] rerun_error[THEN
          conjunct2, THEN conjunct2];
        assumption)+)
    done
  with d show ?thesis by simp
qed

theorem type_expr_idempotent_witness:
  "scope_blind sample_env
   \<and> type_expr sample_env no_links
     (Ast TK_IF 1 1 [] 0
        [Ast TK_REFERENCE 1 4 [] 0 [] (Some (nominal_at 1 4 ''Bool'')),
         Ast TK_INT 1 11 [] 1 [] (Some (nominal_at 1 11 ''IntLiteral'')),
         Ast TK_NONE 1 12 [] 0 [] None]
        (Some (Ast TK_UNIONTYPE 1 1 [] 0
           [nominal_at 1 11 ''IntLiteral'', nominal_at 1 1 ''None''] None)))
   = Some (AST_OK,
       Ast TK_IF 1 1 [] 0
        [Ast TK_REFERENCE 1 4 [] 0 [] (Some (nominal_at 1 4 ''Bool'')),
         Ast TK_INT 1 11 [] 1 [] (Some (nominal_at 1 11 ''IntLiteral'')),
         Ast TK_NONE 1 12 [] 0 [] None]
        (Some (Ast TK_UNIONTYPE 1 1 [] 0
           [nominal_at 1 11 ''IntLiteral'', nominal_at 1 1 ''None''] None)), [])"
proof -
  let ?I = "Ast TK_IF 1 1 [] 0
        [Ast TK_REFERENCE 1 4 [] 0 [] (Some (nominal_at 1 4 ''Bool'')),
         Ast TK_INT 1 11 [] 1 [] (Some (nominal_at 1 11 ''IntLiteral'')),
         Ast TK_NONE 1 12 [] 0 [] None] None"
  have sb: "scope_blind sample_env"
    by (simp add: scope_blind_def sample_env_def ast_settype_def)
  have run: "type_expr sample_env no_links ?I =
      Some (AST_OK, ast_settype ?I (Some (Ast TK_UNIONTYPE 1 1 [] 0
           [nominal_at 1 11 ''IntLiteral'', nominal_at 1 1 ''None''] None)), [])"
    by (simp add: type_expr_def fatal_unless_def expr_if_def ast_child_def ast_childidx_def
        type_bool_def type_builtin_def type_union_def type_super_def ast_add_def ast_from_def
        ast_settype_def Let_def sample_defs)
  from type_expr_idempotent[OF sb run] sb show ?thesis
    by (simp add: ast_settype_def)
qed

lemmas field_defs = field_env_def ref_x_def ref_f_def args_x_def call_f_def field_x_def
  fun_f_def fun_f_type_def ref_f_typed_def

text \<open>
  Claim C9 as stated, for a second run over a whole tree, fails. In
  \<^verbatim>\<open>var x: String = f(x)\<close> the children are visited before the declaration. The first run
  types the reference to \<open>f\<close>; it accepts the reference to \<open>x\<close> while the declaration of
  \<open>x\<close> is still untyped, so \<^verbatim>\<open>expr_reference\<close> attaches no type and the argument tuple
  stays untyped too; it types the call with the result type of \<open>f\<close> and then the
  declaration with its declared type. Every visit returns \<^verbatim>\<open>AST_OK\<close> without a diagnostic
  (the identifier and type nodes are of kinds that \<^verbatim>\<open>type_expr\<close> accepts as they are). In
  the second run the scope lookup hands back the declaration as the first run left it,
  and the reference to \<open>x\<close>, untyped after the first run, gets the type \<open>String\<close>.
\<close>

theorem type_expr_second_run_counterexample:
  "type_expr (field_env (field_x ref_f None None)) no_links ref_f
     = Some (AST_OK, ref_f_typed, [])
   \<and> type_expr (field_env (field_x ref_f_typed None None)) no_links ref_x
     = Some (AST_OK, ref_x, [])
   \<and> ast_type ref_x = None
   \<and> type_expr (field_env (field_x ref_f_typed None None)) no_links args_x
     = Some (AST_OK, args_x, [])
   \<and> type_expr (field_env (field_x ref_f_typed None None)) no_links (call_f ref_f_typed None)
     = Some (AST_OK, call_f ref_f_typed (Some (nominal_at 3 25 ''String'')), [])
   \<and> type_expr (field_env (field_x ref_f_typed (Some (nominal_at 3 25 ''String'')) None))
        no_links (field_x ref_f_typed (Some (nominal_at 3 25 ''String'')) None)
     = Some (AST_OK,
         field_x ref_f_typed (Some (nominal_at 3 25 ''String''))
           (Some (nominal_at 1 8 ''String'')), [])
   \<and> scope_blind
        (field_env (field_x ref_f_typed (Some (nominal_at 3 25 ''String''))
           (Some (nominal_at 1 8 ''String''))))
   \<and> type_expr
        (field_env (field_x ref_f_typed (Some (nominal_at 3 25 ''String''))
           (Some (nominal_at 1 8 ''String''))))
        no_links ref_x
     = Some (AST_OK,
         Ast TK_REFERENCE 1 19 [] 0 [Ast TK_ID 1 19 ''x'' 0 [] None]
           (Some (nominal_at 1 8 ''String'')), [])"
proof -
  have 1: "type_expr (field_env (field_x ref_f None None)) no_links ref_f
     = Some (AST_OK, ref_f_typed, [])"
    by (simp add: type_expr_def fatal_unless_def expr_reference_def type_for_fun_def
        ast_child_def ast_childidx_def ast_from_def ast_add_def ast_append_def ast_settype_def
        Let_def field_defs sample_defs)
  have 2: "type_expr (field_env (field_x ref_f_typed None None)) no_links ref_x
     = Some (AST_OK, ref_x, [])"
    by (simp add: type_expr_def fatal_unless_def expr_reference_def def_before_use_def
        ast_child_def ast_settype_def Let_def field_defs sample_defs)
  have 3: "type_expr (field_env (field_x ref_f_typed None None)) no_links args_x
     = Some (AST_OK, args_x, [])"
    by (simp add: type_expr_def fatal_unless_def expr_tuple_def ast_child_def ast_settype_def
        Let_def field_defs sample_defs)
  have 4: "type_expr (field_env (field_x ref_f_typed None None)) no_links (call_f ref_f_typed None)
     = Some (AST_OK, call_f ref_f_typed (Some (nominal_at 3 25 ''String'')), [])"
    by (simp add: type_expr_def fatal_unless_def expr_call_def ast_child_def ast_childidx_def
        ast_settype_def Let_def field_defs sample_defs)
  have 5: "type_expr (field_env (field_x ref_f_typed (Some (nominal_at 3 25 ''String'')) None))
        no_links (field_x ref_f_typed (Some (nominal_at 3 25 ''String'')) None)
     = Some (AST_OK,
         field_x ref_f_typed (Some (nominal_at 3 25 ''String''))
           (Some (nominal_at 1 8 ''String'')), [])"
    by (simp add: type_expr_def fatal_unless_def expr_field_def ast_child_def ast_childidx_def
        ast_settype_def Let_def field_defs sample_defs)
  have 6: "scope_blind
        (field_env (field_x ref_f_typed (Some (nominal_at 3 25 ''String''))
           (Some (nominal_at 1 8 ''String''))))"
    by (simp add: scope_blind_def field_env_def sample_env_def)
  have 7: "type_expr
        (field_env (field_x ref_f_typed (Some (nominal_at 3 25 ''String''))
           (Some (nominal_at 1 8 ''String''))))
        no_links ref_x
     = Some (AST_OK,
         Ast TK_REFERENCE 1 19 [] 0 [Ast TK_ID 1 19 ''x'' 0 [] None]
           (Some (nominal_at 1 8 ''String'')), [])"
    by (simp add: type_expr_def fatal_unless_def expr_reference_def def_before_use_def
        ast_child_def ast_settype_def Let_def field_defs sample_defs)
  have 8: "ast_type ref_x = None" by (simp add: ref_x_def)
  from 1 2 3 4 5 6 7 8 show ?thesis by blast
qed

end
